theory Spec2Isabelle
  imports Main "HOL-Library.Char_ord" "HOL-Library.List_Lexorder"
begin

section \<open>Python strings and the library calls of the glob matcher\<close>

text \<open>
  A Python \<open>str\<close> is modelled as a \<^typ>\<open>string\<close>. Every character the scripts test for
  is ASCII; a character outside ASCII is never special to them.
\<close>

definition backslash :: char where
  "backslash = CHR 0x5C"

definition newline :: char where
  "newline = CHR 0x0A"

text \<open>
  \<open>re.escape\<close> (Python 3.7 and later) puts a backslash before each character of
  \<open>()[]{}?*+-|^$\.&~#\<close>, space, tab, newline, carriage return, vertical tab and form feed,
  and leaves every other character as it is.
\<close>

definition re_special_chars :: string where
  "re_special_chars =
     ''()[]{}?*+-|^$'' @ [backslash] @ ''.&~# '' @ [CHR 0x09, newline, CHR 0x0D, CHR 0x0B, CHR 0x0C]"

definition escape_char :: "char \<Rightarrow> string" where
  "escape_char c = (if c \<in> set re_special_chars then [backslash, c] else [c])"

definition re_escape :: "string \<Rightarrow> string" where
  "re_escape p = concat (map escape_char p)"

text \<open>
  \<open>s.replace(old, new)\<close>: the occurrences of \<open>old\<close> are found from left to right and do
  not overlap. With an empty \<open>old\<close>, Python puts \<open>new\<close> before every character and at the end.
\<close>

function str_replace :: "string \<Rightarrow> string \<Rightarrow> string \<Rightarrow> string" where
  "str_replace old new s =
     (if old = [] then new @ concat (map (\<lambda>c. c # new) s)
      else if s = [] then []
      else if take (length old) s = old
        then new @ str_replace old new (drop (length old) s)
      else hd s # str_replace old new (tl s))"
  by pat_completeness auto
termination
  by (relation "measure (\<lambda>(old, new, s). length s)") auto

declare str_replace.simps [simp del]

subsection \<open>The fragment of \<open>re\<close> the scanner's pattern lives in\<close>

text \<open>
  The pattern handed to \<open>re.compile\<close> is read as a sequence of items: the anchors \<open>^\<close> and
  \<open>$\<close>, an escaped special character (a literal), \<open>.\<close> (any character but a newline, as no
  \<open>DOTALL\<close> flag is given), \<open>.*\<close> and a plain literal. \<open>re_parse\<close> returns \<open>None\<close> on a
  pattern that uses anything else.
\<close>

datatype rx_item = Bol | Eol | Lit char | AnyChar | AnyStar

definition re_meta_chars :: string where
  "re_meta_chars = ''()[]{}?*+|''"

fun re_parse :: "string \<Rightarrow> rx_item list option" where
  "re_parse [] = Some []"
| "re_parse (c # cs) =
     (if c = backslash then
        (case cs of
           [] \<Rightarrow> None
         | d # ds \<Rightarrow>
             if d \<in> set re_special_chars then map_option (Cons (Lit d)) (re_parse ds) else None)
      else if c = CHR ''.'' then
        (case cs of
           [] \<Rightarrow> Some [AnyChar]
         | d # ds \<Rightarrow>
             if d = CHR ''*'' then map_option (Cons AnyStar) (re_parse ds)
             else map_option (Cons AnyChar) (re_parse (d # ds)))
      else if c = CHR ''^'' then map_option (Cons Bol) (re_parse cs)
      else if c = CHR ''$'' then map_option (Cons Eol) (re_parse cs)
      else if c \<in> set re_meta_chars then None
      else map_option (Cons (Lit c)) (re_parse cs))"

text \<open>
  \<open>rx.match(name)\<close> matches at the start of \<open>name\<close> and need not reach its end. The flag
  says whether the position is the start of the subject. Without \<open>MULTILINE\<close>, \<open>^\<close> holds
  at the start only, and \<open>$\<close> holds at the end and also just before a newline that is the
  last character. Backtracking is the disjunction in the \<open>.*\<close> case.
\<close>

fun rx_match_here :: "rx_item list \<Rightarrow> bool \<Rightarrow> string \<Rightarrow> bool" where
  "rx_match_here [] at_start s = True"
| "rx_match_here (Bol # r) at_start s = (at_start \<and> rx_match_here r at_start s)"
| "rx_match_here (Eol # r) at_start s = ((s = [] \<or> s = [newline]) \<and> rx_match_here r at_start s)"
| "rx_match_here (Lit c # r) at_start [] = False"
| "rx_match_here (Lit c # r) at_start (x # xs) = (x = c \<and> rx_match_here r False xs)"
| "rx_match_here (AnyChar # r) at_start [] = False"
| "rx_match_here (AnyChar # r) at_start (x # xs) = (x \<noteq> newline \<and> rx_match_here r False xs)"
| "rx_match_here (AnyStar # r) at_start [] = rx_match_here r at_start []"
| "rx_match_here (AnyStar # r) at_start (x # xs) =
     ((x \<noteq> newline \<and> rx_match_here (AnyStar # r) False xs) \<or> rx_match_here r at_start (x # xs))"

definition re_match :: "string \<Rightarrow> string \<Rightarrow> bool option" where
  "re_match pattern s = map_option (\<lambda>items. rx_match_here items True s) (re_parse pattern)"

subsection \<open>The pattern of \<open>build_from_release_scan\<close>\<close>

text \<open>
  \<^verbatim>\<open>rx = re.compile("^" + re.escape(glob_pat).replace(r"\*", ".*").replace(r"\?", ".") + "$")\<close>
\<close>

definition glob_regex :: "string \<Rightarrow> string" where
  "glob_regex glob_pat =
     ''^'' @ str_replace [backslash, CHR ''?''] ''.''
              (str_replace [backslash, CHR ''*''] ''.*'' (re_escape glob_pat)) @ ''$''"

definition asset_matches :: "string \<Rightarrow> string \<Rightarrow> bool option" where
  "asset_matches glob_pat name = re_match (glob_regex glob_pat) name"

text \<open>
  The reference the matcher is compared with, written from the specification's words:
  shell-glob matching where \<open>*\<close> stands for any run of characters, \<open>?\<close> for any single
  character and every other character for itself.
\<close>

fun glob_match :: "string \<Rightarrow> string \<Rightarrow> bool" where
  "glob_match [] f = (f = [])"
| "glob_match (c # p) [] = (c = CHR ''*'' \<and> glob_match p [])"
| "glob_match (c # p) (x # f) =
     (if c = CHR ''*'' then glob_match p (x # f) \<or> glob_match (c # p) f
      else if c = CHR ''?'' then glob_match p f
      else c = x \<and> glob_match p f)"

text \<open>
  What one character of the glob becomes in the pattern, and the item \<open>re_parse\<close> reads
  there. \<open>tok_ok a b t\<close> describes a piece of text in which \<open>str_replace [a, b]\<close> finds an
  occurrence only if the piece is that occurrence.
\<close>

definition glob_token :: "char \<Rightarrow> string" where
  "glob_token c = (if c = CHR ''*'' then ''.*'' else if c = CHR ''?'' then ''.'' else escape_char c)"

definition glob_item :: "char \<Rightarrow> rx_item" where
  "glob_item c = (if c = CHR ''*'' then AnyStar else if c = CHR ''?'' then AnyChar else Lit c)"

definition tok_ok :: "char \<Rightarrow> char \<Rightarrow> string \<Rightarrow> bool" where
  "tok_ok a b t \<longleftrightarrow> t \<noteq> [] \<and> hd t \<noteq> b \<and> ((length t = 2 \<and> hd t = a) \<or> a \<notin> set t)"


section \<open>Parsed JSON and the Python operations on it\<close>

text \<open>
  A Python \<open>float\<close> is \<open>m * 2 ^ e\<close>, an infinity or a NaN. The values \<open>json.loads\<close> returns:
  a \<open>dict\<close> keeps its keys in insertion order and is looked up with \<^const>\<open>map_of\<close>.
\<close>

datatype pyfloat = PyFinite int int | PyInf bool | PyNaN

datatype json =
    JNull
  | JBool bool
  | JInt int
  | JFloat pyfloat
  | JStr string
  | JArr "json list"
  | JObj "(string \<times> json) list"

type_synonym pydict = "(string \<times> json) list"

type_synonym bytes = "char list"

datatype py_error =
    TypeError | AttributeError | ValueError | KeyError | URLError | ReError
  | UnicodeDecodeError | JSONDecodeError | FileNotFoundError

text \<open>
  A call that may raise returns the exception on the left. \<open>and_then\<close> goes on with the
  value of a call that returned and stops at the first exception.
\<close>

definition and_then :: "py_error + 'a \<Rightarrow> ('a \<Rightarrow> py_error + 'b) \<Rightarrow> py_error + 'b" where
  "and_then r f = (case r of Inl e \<Rightarrow> Inl e | Inr x \<Rightarrow> f x)"

text \<open>The truth value Python gives a parsed value in \<open>if v\<close>, \<open>not v\<close> and \<open>v or w\<close>.\<close>

fun py_truthy :: "json \<Rightarrow> bool" where
  "py_truthy JNull = False"
| "py_truthy (JBool b) = b"
| "py_truthy (JInt n) = (n \<noteq> 0)"
| "py_truthy (JFloat (PyFinite m e)) = (m \<noteq> 0)"
| "py_truthy (JFloat (PyInf negative)) = True"
| "py_truthy (JFloat PyNaN) = True"
| "py_truthy (JStr s) = (s \<noteq> [])"
| "py_truthy (JArr xs) = (xs \<noteq> [])"
| "py_truthy (JObj kvs) = (kvs \<noteq> [])"

text \<open>\<open>d.get(k, default)\<close>, and \<open>d.get(k)\<close> followed by a truth test.\<close>

definition get_default :: "pydict \<Rightarrow> string \<Rightarrow> json \<Rightarrow> json" where
  "get_default d k dflt = (case map_of d k of Some v \<Rightarrow> v | None \<Rightarrow> dflt)"

definition get_truthy :: "pydict \<Rightarrow> string \<Rightarrow> json option" where
  "get_truthy d k = (case map_of d k of Some v \<Rightarrow> if py_truthy v then Some v else None | None \<Rightarrow> None)"

text \<open>
  \<open>str.isspace\<close> on one character with a code point below 256, which is also what \<open>\s\<close>
  matches in a \<open>str\<close> pattern; \<open>s.strip()\<close>; \<open>s.lstrip("v")\<close>.
\<close>

definition py_isspace :: "char \<Rightarrow> bool" where
  "py_isspace c =
     (let n = (of_char c :: nat)
      in (9 \<le> n \<and> n \<le> 13) \<or> (28 \<le> n \<and> n \<le> 32) \<or> n = 133 \<or> n = 160)"

definition py_strip :: "string \<Rightarrow> string" where
  "py_strip s = rev (dropWhile py_isspace (rev (dropWhile py_isspace s)))"

definition lstrip_v :: "string \<Rightarrow> string" where
  "lstrip_v s = dropWhile (\<lambda>c. c = CHR ''v'') s"

text \<open>
  \<open>key in container\<close> and \<open>container[key] = value\<close> for a string key. A string container
  is searched for the key as a substring, a list for an equal element; neither takes an
  item assignment with a string index. Any other value that is not a \<open>dict\<close> raises.
\<close>

fun is_substring :: "string \<Rightarrow> string \<Rightarrow> bool" where
  "is_substring k [] = (k = [])"
| "is_substring k (c # s) = (take (length k) (c # s) = k \<or> is_substring k s)"

fun py_contains :: "string \<Rightarrow> json \<Rightarrow> py_error + bool" where
  "py_contains k (JObj d) = Inr (map_of d k \<noteq> None)"
| "py_contains k (JStr s) = Inr (is_substring k s)"
| "py_contains k (JArr xs) = Inr (JStr k \<in> set xs)"
| "py_contains k v = Inl TypeError"

fun dict_set :: "('k \<times> 'v) list \<Rightarrow> 'k \<Rightarrow> 'v \<Rightarrow> ('k \<times> 'v) list" where
  "dict_set [] k v = [(k, v)]"
| "dict_set ((k', v') # d) k v = (if k' = k then (k, v) # d else (k', v') # dict_set d k v)"

fun py_setitem :: "json \<Rightarrow> string \<Rightarrow> json \<Rightarrow> py_error + json" where
  "py_setitem (JObj d) k v = Inr (JObj (dict_set d k v))"
| "py_setitem c k v = Inl TypeError"

text \<open>
  The library functions the scripts call and whose results the model takes as given:
  \<open>hashlib.sha256(b).hexdigest()\<close>, \<open>json.loads\<close> (\<open>None\<close> for \<open>JSONDecodeError\<close>),
  \<open>json.dumps(obj, indent=2, ensure_ascii=False)\<close>, \<open>str(v)\<close> and \<open>int(v)\<close> (\<open>None\<close> when it
  raises) on a parsed value, \<open>b.decode("utf-8")\<close> (\<open>None\<close> when it raises), the encoding of
  the text written to a file opened with \<open>encoding="utf-8"\<close>, and the opening of an archive
  held in memory.

  An opened zip file is its \<open>namelist()\<close>, each name with what
  \<open>z.read(name).decode("utf-8")\<close> gives (\<open>None\<close> when that raises); \<open>zip_open\<close> is \<open>None\<close> for
  \<open>BadZipFile\<close>. An opened tar file is the list of its members that are regular files;
  \<open>TarAbsent\<close> is \<open>extractfile\<close> returning \<open>None\<close>, \<open>TarRaises\<close> an exception while reading
  or decoding; \<open>tar_open\<close> is \<open>None\<close> for \<open>tarfile.ReadError\<close>.
\<close>

datatype tar_member = TarText string | TarAbsent | TarRaises

record pylib =
  sha256_hex :: "bytes \<Rightarrow> string"
  json_loads :: "string \<Rightarrow> json option"
  json_dumps :: "json \<Rightarrow> string"
  py_str :: "json \<Rightarrow> string"
  py_int :: "json \<Rightarrow> int option"
  utf8_decode :: "bytes \<Rightarrow> string option"
  utf8_encode :: "string \<Rightarrow> bytes"
  zip_open :: "bytes \<Rightarrow> (string \<times> string option) list option"
  tar_open :: "bytes \<Rightarrow> (string \<times> tar_member) list option"


section \<open>The tolerant JSON loader\<close>

text \<open>
  \<open>pattern.sub(repl, s)\<close> goes through \<open>s\<close> from left to right; where the pattern matches,
  the match is replaced and the search goes on behind it. \<open>m\<close> gives the length of the match
  that starts at the head of its argument. Neither pattern of the loader matches the empty
  string, so a length of 0 is read as no match.
\<close>

function re_sub :: "(string \<Rightarrow> nat option) \<Rightarrow> (string \<Rightarrow> string) \<Rightarrow> string \<Rightarrow> string" where
  "re_sub m repl s =
     (if s = [] then []
      else case m s of
          None \<Rightarrow> hd s # re_sub m repl (tl s)
        | Some n \<Rightarrow>
            if 0 < n then repl (take n s) @ re_sub m repl (drop n s)
            else hd s # re_sub m repl (tl s))"
  by pat_completeness auto
termination
  by (relation "measure (\<lambda>(m, repl, s). length s)") auto

declare re_sub.simps [simp del]

text \<open>
  \<^verbatim>\<open>_comment_re = re.compile(r"""(?mx) (//[^\n]*$) | (/\*.*?\*/) """)\<close>
  With \<open>MULTILINE\<close>, \<open>$\<close> holds before every newline and at the end, so the first alternative
  takes \<open>//\<close> and the rest of the line. In the second, \<open>.\<close> matches no newline and \<open>.*?\<close> is
  lazy: the comment ends at the first \<open>*/\<close> behind \<open>/*\<close>, which must be on the same line.
\<close>

definition line_comment_len :: "string \<Rightarrow> nat option" where
  "line_comment_len s =
     (if take 2 s = ''//'' then Some (2 + length (takeWhile (\<lambda>c. c \<noteq> newline) (drop 2 s)))
      else None)"

fun block_body_len :: "string \<Rightarrow> nat option" where
  "block_body_len [] = None"
| "block_body_len (c # cs) =
     (if take 2 (c # cs) = ''*/'' then Some 0
      else if c = newline then None
      else map_option Suc (block_body_len cs))"

definition block_comment_len :: "string \<Rightarrow> nat option" where
  "block_comment_len s =
     (if take 2 s = ''/*'' then map_option (\<lambda>n. n + 4) (block_body_len (drop 2 s)) else None)"

definition comment_len :: "string \<Rightarrow> nat option" where
  "comment_len s =
     (case line_comment_len s of Some n \<Rightarrow> Some n | None \<Rightarrow> block_comment_len s)"

text \<open>
  \<^verbatim>\<open>_trailing_comma_re = re.compile(r",\s*([}\]])")\<close>, replaced by its group 1, the bracket.
\<close>

definition trailing_comma_len :: "string \<Rightarrow> nat option" where
  "trailing_comma_len s =
     (case s of
        [] \<Rightarrow> None
      | c # cs \<Rightarrow>
          if c = CHR '','' then
            (case dropWhile py_isspace cs of
               [] \<Rightarrow> None
             | d # ds \<Rightarrow>
                 if d = CHR ''}'' \<or> d = CHR '']''
                 then Some (length (takeWhile py_isspace cs) + 2) else None)
          else None)"

definition strip_comments :: "string \<Rightarrow> string" where
  "strip_comments s = re_sub comment_len (\<lambda>m. []) s"

definition strip_trailing_commas :: "string \<Rightarrow> string" where
  "strip_trailing_commas s = re_sub trailing_comma_len (\<lambda>m. [last m]) s"

text \<open>\<open>None\<close> is the \<open>JSONDecodeError\<close> of the second \<open>json.loads\<close>.\<close>

definition json_loads_tolerant :: "pylib \<Rightarrow> string \<Rightarrow> json option" where
  "json_loads_tolerant lib s =
     (case json_loads lib s of
        Some v \<Rightarrow> Some v
      | None \<Rightarrow> json_loads lib (strip_trailing_commas (strip_comments s)))"

section \<open>Reading the manifest of an archive\<close>

datatype log_event =
    LogScanning string bool string
  | LogNoReleases
  | LogRelease "string option" nat
  | LogSkipMissing
  | LogSkipGlob string
  | LogFetch string
  | LogParseError string
  | LogNoManifest
  | LogDuplicate string
  | LogOk string string
  | LogNoMatch
  | LogUnknownMode "string option"
  | LogWrote nat

definition select_manifest_name :: "string list \<Rightarrow> string option" where
  "select_manifest_name names =
     (if ''manifest.json'' \<in> set names then Some ''manifest.json''
      else if ''metadata.json'' \<in> set names then Some ''metadata.json''
      else
        (case remdups (map (takeWhile (\<lambda>c. c \<noteq> CHR ''/''))
                        (filter (\<lambda>p. CHR ''/'' \<in> set p) names)) of
           [root] \<Rightarrow>
             if root @ ''/manifest.json'' \<in> set names then Some (root @ ''/manifest.json'')
             else if root @ ''/metadata.json'' \<in> set names then Some (root @ ''/metadata.json'')
             else None
         | _ \<Rightarrow> None))"

definition parse_manifest :: "pylib \<Rightarrow> string \<Rightarrow> string \<Rightarrow> (json \<times> string) option \<times> log_event list" where
  "parse_manifest lib target text =
     (case json_loads_tolerant lib text of
        Some v \<Rightarrow> (Some (v, target), [])
      | None \<Rightarrow> (None, [LogParseError target]))"

definition read_manifest_from_tar :: "pylib \<Rightarrow> bytes \<Rightarrow> (json \<times> string) option \<times> log_event list" where
  "read_manifest_from_tar lib blob =
     (case tar_open lib blob of
        None \<Rightarrow> (None, [])
      | Some members \<Rightarrow>
          (case select_manifest_name (map fst members) of
             None \<Rightarrow> (None, [])
           | Some target \<Rightarrow>
               (case map_of members target of
                  Some (TarText text) \<Rightarrow> parse_manifest lib target text
                | Some TarAbsent \<Rightarrow> (None, [])
                | _ \<Rightarrow> (None, [LogParseError target]))))"

definition read_manifest_from_archive :: "pylib \<Rightarrow> bytes \<Rightarrow> (json \<times> string) option \<times> log_event list" where
  "read_manifest_from_archive lib blob =
     (case zip_open lib blob of
        None \<Rightarrow> read_manifest_from_tar lib blob
      | Some members \<Rightarrow>
          (case select_manifest_name (map fst members) of
             None \<Rightarrow> read_manifest_from_tar lib blob
           | Some target \<Rightarrow>
               (case map_of members target of
                  Some (Some text) \<Rightarrow> parse_manifest lib target text
                | _ \<Rightarrow> (None, [LogParseError target]))))"


section \<open>The release scanner\<close>

text \<open>
  What the scanner reads: a source of \<open>repos.yaml\<close>, the releases the hosting API lists and
  the surroundings of a run. The values are of the types the configuration and the API give
  them: strings, and a truth value for \<open>only_latest\<close>. A field of a source is \<open>None\<close> when
  the key is absent; a field of a release or an asset is \<open>None\<close> when the key is absent or
  null.
\<close>

record src =
  src_id :: "string option"
  src_mode :: "string option"
  repo :: "string option"
  asset_glob :: "string option"
  only_latest :: bool
  packages_url :: "string option"

record asset =
  asset_name :: "string option"
  browser_download_url :: "string option"

record release =
  tag_name :: "string option"
  created_at :: string
  assets :: "asset list"

text \<open>
  \<open>http_get\<close> and \<open>gh_api\<close> return what the network gives or the exception they raise. The
  three tests say whether \<open>assets/<id>\<close>, \<open>assets/<id>/icon.png\<close> and
  \<open>assets/<id>/screenshot.png\<close> exist. \<open>now_utc_str\<close> and \<open>time_time\<close> give the clock at
  the n-th reading of a run; \<open>environ\<close> is \<open>os.environ.get\<close>.
\<close>

record env =
  http_get :: "string \<Rightarrow> py_error + bytes"
  gh_api :: "string \<Rightarrow> string option \<Rightarrow> py_error + release list"
  assets_dir_exists :: "string \<Rightarrow> bool"
  icon_exists :: "string \<Rightarrow> bool"
  screenshot_exists :: "string \<Rightarrow> bool"
  now_utc_str :: "nat \<Rightarrow> string"
  time_time :: "nat \<Rightarrow> int"
  environ :: "string \<Rightarrow> string option"

record version_entry =
  version :: string
  download_url :: string
  download_sha256 :: string
  download_size :: nat
  status :: string
  kicad_version :: string
  install_size :: "int option"

text \<open>
  A package as the scanner builds it. The keys \<open>identifier\<close>, \<open>name\<close> and
  \<open>type\<close> of the Python dictionary are the fields \<open>pkg_identifier\<close>, \<open>pkg_name\<close> and
  \<open>pkg_type\<close> here; an optional key is \<open>None\<close> when the
  dictionary does not have it.
\<close>

record package =
  pkg_identifier :: string
  pkg_name :: json
  pkg_type :: json
  description :: json
  description_full :: "json option"
  license :: json
  author :: "json option"
  maintainer :: "json option"
  resources :: json
  versions :: "version_entry list"

record scan_state =
  packages :: "(string \<times> package) list"
  logged :: "log_event list"
  matched :: nat

text \<open>
  \<^verbatim>\<open>pkg_id = manifest.get("identifier") or src["id"]\<close>
  The identifier goes on as a dictionary key and as a path component: a list or an object
  raises \<open>TypeError\<close> in \<open>packages.setdefault\<close> (unhashable), and any other value that is
  not a string raises \<open>TypeError\<close> in \<open>repo_root / "assets" / pkg_id\<close>, which is evaluated
  for every asset with a usable manifest.
\<close>

definition package_id :: "pydict \<Rightarrow> src \<Rightarrow> py_error + string" where
  "package_id manifest source =
     (case get_truthy manifest ''identifier'' of
        Some (JStr s) \<Rightarrow> Inr s
      | Some v \<Rightarrow> Inl TypeError
      | None \<Rightarrow> (case src_id source of None \<Rightarrow> Inl KeyError | Some s \<Rightarrow> Inr s))"

definition dict_or_none :: "json option \<Rightarrow> json option" where
  "dict_or_none v = (case v of Some (JObj d) \<Rightarrow> Some (JObj d) | _ \<Rightarrow> None)"

text \<open>The dictionary handed to \<open>packages.setdefault\<close>.\<close>

definition new_package :: "string \<Rightarrow> pydict \<Rightarrow> package" where
  "new_package pkg_id manifest =
     \<lparr> pkg_identifier = pkg_id,
       pkg_name = get_default manifest ''name'' (JStr pkg_id),
       pkg_type = get_default manifest ''type'' (JStr ''library''),
       description = get_default manifest ''description'' (JStr (pkg_id @ '' package'')),
       description_full = get_truthy manifest ''description_full'',
       license = get_default manifest ''license'' (JStr []),
       author = dict_or_none (map_of manifest ''author''),
       maintainer = dict_or_none (map_of manifest ''maintainer''),
       resources = get_default manifest ''resources'' (JObj []),
       versions = [] \<rparr>"

text \<open>
  \<^verbatim>\<open>if (assets_dir / "icon.png").exists() and "icon" not in pkg["resources"]:
      pkg["resources"]["icon"] = icon_rel\<close>
  and the same for the screenshot, both under \<open>if assets_dir.exists()\<close>.
\<close>

definition wire_resource :: "bool \<Rightarrow> string \<Rightarrow> string \<Rightarrow> json \<Rightarrow> py_error + json" where
  "wire_resource file_exists key rel res =
     (if file_exists then
        (case py_contains key res of
           Inl e \<Rightarrow> Inl e
         | Inr present \<Rightarrow> if present then Inr res else py_setitem res key (JStr rel))
      else Inr res)"

definition auto_wire :: "env \<Rightarrow> string \<Rightarrow> json \<Rightarrow> py_error + json" where
  "auto_wire ev pkg_id res =
     (if assets_dir_exists ev pkg_id then
        (case wire_resource (icon_exists ev pkg_id) ''icon'' (pkg_id @ ''/icon.png'') res of
           Inl e \<Rightarrow> Inl e
         | Inr res1 \<Rightarrow>
             wire_resource (screenshot_exists ev pkg_id) ''screenshot''
               (pkg_id @ ''/screenshot.png'') res1)
      else Inr res)"

text \<open>
  \<^verbatim>\<open>version_str = (manifest.get("version") or (tag.lstrip("v") if tag else "0.0.0")).strip()\<close>
  A truthy version that is not a string has no \<open>strip\<close>: \<open>AttributeError\<close>.
\<close>

definition version_str :: "pydict \<Rightarrow> string option \<Rightarrow> py_error + string" where
  "version_str manifest tag =
     (case get_truthy manifest ''version'' of
        Some (JStr s) \<Rightarrow> Inr (py_strip s)
      | Some v \<Rightarrow> Inl AttributeError
      | None \<Rightarrow>
          Inr (py_strip (case tag of
                           None \<Rightarrow> ''0.0.0''
                         | Some t \<Rightarrow> if t \<noteq> [] then lstrip_v t else ''0.0.0'')))"

text \<open>
  \<open>owner, repo = owner_repo.split("/", 1)\<close> raises \<open>ValueError\<close> when there is no slash;
  a missing tag is formatted as \<open>None\<close>.
\<close>

definition asset_download_url :: "string \<Rightarrow> string option \<Rightarrow> string \<Rightarrow> py_error + string" where
  "asset_download_url owner_repo tag asset_nm =
     (if CHR ''/'' \<in> set owner_repo then
        Inr (''https://github.com/'' @ takeWhile (\<lambda>c. c \<noteq> CHR ''/'') owner_repo @ ''/''
             @ tl (dropWhile (\<lambda>c. c \<noteq> CHR ''/'') owner_repo) @ ''/releases/download/''
             @ (case tag of None \<Rightarrow> ''None'' | Some t \<Rightarrow> t) @ ''/'' @ asset_nm)
      else Inl ValueError)"

text \<open>
  \<^verbatim>\<open>if manifest.get("install_size"):
      try: version_entry["install_size"] = int(manifest["install_size"])
      except Exception: pass\<close>
\<close>

definition install_size_of :: "pylib \<Rightarrow> pydict \<Rightarrow> int option" where
  "install_size_of lib manifest =
     (case get_truthy manifest ''install_size'' of Some v \<Rightarrow> py_int lib v | None \<Rightarrow> None)"

definition base_version_entry ::
  "pylib \<Rightarrow> string \<Rightarrow> string \<Rightarrow> bytes \<Rightarrow> pydict \<Rightarrow> version_entry" where
  "base_version_entry lib v url data manifest =
     \<lparr> version = v,
       download_url = url,
       download_sha256 = sha256_hex lib data,
       download_size = length data,
       status = py_str lib (get_default manifest ''status'' (JStr ''testing'')),
       kicad_version = py_str lib (get_default manifest ''kicad_version'' (JStr ''8.0'')),
       install_size = None \<rparr>"

definition new_version_entry ::
  "pylib \<Rightarrow> string \<Rightarrow> string \<Rightarrow> bytes \<Rightarrow> pydict \<Rightarrow> version_entry" where
  "new_version_entry lib v url data manifest =
     (base_version_entry lib v url data manifest)
       \<lparr> install_size := install_size_of lib manifest \<rparr>"

text \<open>
  The value \<open>d.setdefault(k, default)\<close> returns. The entry itself is written when the asset
  has been merged (\<^const>\<open>dict_set\<close> puts a new key last and keeps the place of an old one);
  an exception before that ends the scan, and nothing reads the dictionary in between.
\<close>

definition setdefault :: "('k \<times> 'v) list \<Rightarrow> 'k \<Rightarrow> 'v \<Rightarrow> 'v" where
  "setdefault d k dflt = (case map_of d k of Some v \<Rightarrow> v | None \<Rightarrow> dflt)"

text \<open>
  The body of the asset loop from \<open>pkg_id = ...\<close> on, for an asset whose manifest is a \<open>dict\<close>.
\<close>

definition merge_asset ::
  "pylib \<Rightarrow> env \<Rightarrow> src \<Rightarrow> string \<Rightarrow> string option \<Rightarrow> string \<Rightarrow> bytes \<Rightarrow> pydict \<Rightarrow> string
     \<Rightarrow> scan_state \<Rightarrow> py_error + scan_state" where
  "merge_asset lib ev source owner_repo tag name data manifest mf_name st =
     and_then (package_id manifest source) (\<lambda>pkg_id.
       let pkg = setdefault (packages st) pkg_id (new_package pkg_id manifest)
       in and_then (auto_wire ev pkg_id (resources pkg)) (\<lambda>res.
            let pkg1 = pkg \<lparr> resources := res \<rparr>
            in and_then (version_str manifest tag) (\<lambda>v.
                 if v \<in> set (map version (versions pkg1)) then
                   Inr (st \<lparr> packages := dict_set (packages st) pkg_id pkg1,
                            logged := logged st @ [LogDuplicate v] \<rparr>)
                 else
                   and_then (asset_download_url owner_repo tag name) (\<lambda>url.
                     Inr (st \<lparr> packages :=
                                 dict_set (packages st) pkg_id
                                   (pkg1 \<lparr> versions := versions pkg1
                                       @ [new_version_entry lib v url data manifest] \<rparr>),
                               logged := logged st @ [LogOk mf_name v] \<rparr>)))))"

text \<open>One pass of \<open>for a in assets\<close>; \<open>continue\<close> is the return of the state.\<close>

definition skip_asset :: "log_event \<Rightarrow> scan_state \<Rightarrow> py_error + scan_state" where
  "skip_asset note st = Inr (st \<lparr> logged := logged st @ [note] \<rparr>)"

definition use_manifest ::
  "pylib \<Rightarrow> env \<Rightarrow> src \<Rightarrow> string \<Rightarrow> string option \<Rightarrow> string \<Rightarrow> bytes \<Rightarrow> scan_state
     \<Rightarrow> py_error + scan_state" where
  "use_manifest lib ev source owner_repo tag name data st =
     (let found = read_manifest_from_archive lib data;
          st1 = st \<lparr> logged := logged st @ snd found \<rparr>
      in case fst found of
           Some (JObj manifest, mf_name) \<Rightarrow>
             merge_asset lib ev source owner_repo tag name data manifest mf_name st1
         | _ \<Rightarrow> skip_asset LogNoManifest st1)"

definition scan_asset ::
  "pylib \<Rightarrow> env \<Rightarrow> src \<Rightarrow> string \<Rightarrow> rx_item list \<Rightarrow> string option \<Rightarrow> asset \<Rightarrow> scan_state
     \<Rightarrow> py_error + scan_state" where
  "scan_asset lib ev source owner_repo rx tag a st =
     (case (asset_name a, browser_download_url a) of
        (Some name, Some url) \<Rightarrow>
          if name = [] \<or> url = [] then skip_asset LogSkipMissing st
          else if \<not> rx_match_here rx True name then skip_asset (LogSkipGlob name) st
          else
            and_then (http_get ev url)
              (\<lambda>data. use_manifest lib ev source owner_repo tag name data
                         (st \<lparr> matched := matched st + 1,
                               logged := logged st @ [LogFetch name] \<rparr>))
      | _ \<Rightarrow> skip_asset LogSkipMissing st)"

fun scan_assets ::
  "pylib \<Rightarrow> env \<Rightarrow> src \<Rightarrow> string \<Rightarrow> rx_item list \<Rightarrow> string option \<Rightarrow> asset list \<Rightarrow> scan_state
     \<Rightarrow> py_error + scan_state" where
  "scan_assets lib ev source owner_repo rx tag [] st = Inr st"
| "scan_assets lib ev source owner_repo rx tag (a # as) st =
     and_then (scan_asset lib ev source owner_repo rx tag a st)
       (scan_assets lib ev source owner_repo rx tag as)"

text \<open>One pass of \<open>for rel in releases\<close>, and the loop with its \<open>break\<close> under \<open>only_latest\<close>.\<close>

definition scan_release ::
  "pylib \<Rightarrow> env \<Rightarrow> src \<Rightarrow> string \<Rightarrow> rx_item list \<Rightarrow> release \<Rightarrow> scan_state
     \<Rightarrow> py_error + scan_state" where
  "scan_release lib ev source owner_repo rx rel st =
     and_then
       (scan_assets lib ev source owner_repo rx (tag_name rel) (assets rel)
          (st \<lparr> logged := logged st @ [LogRelease (tag_name rel) (length (assets rel))],
                matched := 0 \<rparr>))
       (\<lambda>st1. Inr (if matched st1 = 0 then st1 \<lparr> logged := logged st1 @ [LogNoMatch] \<rparr>
                     else st1))"

fun scan_releases ::
  "pylib \<Rightarrow> env \<Rightarrow> src \<Rightarrow> string \<Rightarrow> rx_item list \<Rightarrow> release list \<Rightarrow> scan_state
     \<Rightarrow> py_error + scan_state" where
  "scan_releases lib ev source owner_repo rx [] st = Inr st"
| "scan_releases lib ev source owner_repo rx (rel # rels) st =
     and_then (scan_release lib ev source owner_repo rx rel st)
       (\<lambda>st1. if only_latest source then Inr st1
              else scan_releases lib ev source owner_repo rx rels st1)"

text \<open>
  \<open>xs.sort(key=k, reverse=True)\<close> is a stable sort into descending order: elements with
  equal keys keep their order. Strings compare character by character on code points,
  which is the order of \<^typ>\<open>string\<close> here.
\<close>

definition sort_reverse :: "('a \<Rightarrow> 'k::linorder) \<Rightarrow> 'a list \<Rightarrow> 'a list" where
  "sort_reverse k xs = rev (sort_key k (rev xs))"

definition sort_package_versions :: "package \<Rightarrow> package" where
  "sort_package_versions pkg = pkg \<lparr> versions := sort_reverse version (versions pkg) \<rparr>"

definition scan_listed ::
  "pylib \<Rightarrow> env \<Rightarrow> src \<Rightarrow> string \<Rightarrow> string \<Rightarrow> rx_item list \<Rightarrow> release list
     \<Rightarrow> py_error + (package list \<times> log_event list)" where
  "scan_listed lib ev source owner_repo glob_pat rx listed =
     (let releases = sort_reverse created_at listed;
          st0 = \<lparr> packages = [],
                  logged = LogScanning owner_repo (only_latest source) glob_pat
                           # (if releases = [] then [LogNoReleases] else []),
                  matched = 0 \<rparr>
      in and_then (scan_releases lib ev source owner_repo rx releases st0)
           (\<lambda>st. Inr (map (\<lambda>kv. sort_package_versions (snd kv)) (packages st), logged st)))"

definition build_from_release_scan ::
  "pylib \<Rightarrow> env \<Rightarrow> src \<Rightarrow> string option \<Rightarrow> py_error + (package list \<times> log_event list)" where
  "build_from_release_scan lib ev source token =
     (case repo source of
        None \<Rightarrow> Inl KeyError
      | Some owner_repo \<Rightarrow>
          (let glob_pat = (case asset_glob source of Some g \<Rightarrow> g | None \<Rightarrow> ''*.zip'')
           in (case re_parse (glob_regex glob_pat) of
                 None \<Rightarrow> Inl ReError
               | Some rx \<Rightarrow>
                   and_then (gh_api ev (''/repos/'' @ owner_repo @ ''/releases'') token)
                     (scan_listed lib ev source owner_repo glob_pat rx))))"

section \<open>The mirror importer\<close>

text \<open>
  \<^verbatim>\<open>if isinstance(pkgs, dict):
      pkgs = pkgs.get("packages") or pkgs.get("data") or []\<close>
\<close>

definition mirror_packages :: "json \<Rightarrow> json" where
  "mirror_packages pkgs =
     (case pkgs of
        JObj d \<Rightarrow>
          (case get_truthy d ''packages'' of
             Some v \<Rightarrow> v
           | None \<Rightarrow> (case get_truthy d ''data'' of Some v \<Rightarrow> v | None \<Rightarrow> JArr []))
      | _ \<Rightarrow> pkgs)"

definition build_from_mirror :: "pylib \<Rightarrow> env \<Rightarrow> src \<Rightarrow> py_error + json" where
  "build_from_mirror lib ev source =
     (case packages_url source of
        None \<Rightarrow> Inl KeyError
      | Some url \<Rightarrow>
          and_then (http_get ev url) (\<lambda>body.
            case utf8_decode lib body of
              None \<Rightarrow> Inl UnicodeDecodeError
            | Some text \<Rightarrow>
                (case json_loads lib text of
                   None \<Rightarrow> Inl JSONDecodeError
                 | Some pkgs \<Rightarrow> Inr (mirror_packages pkgs))))"


section \<open>The index writer\<close>

text \<open>The dictionaries the scanner returns, with their keys in the order of insertion.\<close>

definition version_json :: "version_entry \<Rightarrow> json" where
  "version_json v =
     JObj ([(''version'', JStr (version v)),
            (''download_url'', JStr (download_url v)),
            (''download_sha256'', JStr (download_sha256 v)),
            (''download_size'', JInt (int (download_size v))),
            (''status'', JStr (status v)),
            (''kicad_version'', JStr (kicad_version v))]
           @ (case install_size v of Some n \<Rightarrow> [(''install_size'', JInt n)] | None \<Rightarrow> []))"

definition optional_key :: "string \<Rightarrow> json option \<Rightarrow> pydict" where
  "optional_key k v = (case v of Some x \<Rightarrow> [(k, x)] | None \<Rightarrow> [])"

definition package_json :: "package \<Rightarrow> json" where
  "package_json p =
     JObj ([(''$schema'', JStr ''https://go.kicad.org/pcm/schemas/v1''),
            (''identifier'', JStr (pkg_identifier p)),
            (''name'', pkg_name p),
            (''type'', pkg_type p),
            (''description'', description p)]
           @ optional_key ''description_full'' (description_full p)
           @ [(''license'', license p)]
           @ optional_key ''author'' (author p)
           @ optional_key ''maintainer'' (maintainer p)
           @ [(''resources'', resources p),
              (''versions'', JArr (map version_json (versions p)))])"

text \<open>
  \<open>all_packages.extend(v)\<close> iterates over \<open>v\<close>: the elements of a list, the characters of a
  string, the keys of a dictionary; anything else is not iterable.
\<close>

fun py_iter :: "json \<Rightarrow> py_error + json list" where
  "py_iter (JArr xs) = Inr xs"
| "py_iter (JStr s) = Inr (map (\<lambda>c. JStr [c]) s)"
| "py_iter (JObj d) = Inr (map (\<lambda>kv. JStr (fst kv)) d)"
| "py_iter v = Inl TypeError"

definition first_nonempty :: "string option \<Rightarrow> string option \<Rightarrow> string option" where
  "first_nonempty a b = (case a of Some s \<Rightarrow> if s \<noteq> [] then Some s else b | None \<Rightarrow> b)"

definition extend_from_source ::
  "pylib \<Rightarrow> env \<Rightarrow> string option \<Rightarrow> src \<Rightarrow> json list \<times> log_event list
     \<Rightarrow> py_error + (json list \<times> log_event list)" where
  "extend_from_source lib ev token source acc =
     (if src_mode source = Some ''release_scan'' then
        and_then (build_from_release_scan lib ev source token)
          (\<lambda>built. Inr (fst acc @ map package_json (fst built), snd acc @ snd built))
      else if src_mode source = Some ''mirror_packages_json'' then
        and_then (build_from_mirror lib ev source)
          (\<lambda>pkgs. and_then (py_iter pkgs) (\<lambda>xs. Inr (fst acc @ xs, snd acc)))
      else Inr (fst acc, snd acc @ [LogUnknownMode (src_id source)]))"

fun gather_sources ::
  "pylib \<Rightarrow> env \<Rightarrow> string option \<Rightarrow> src list \<Rightarrow> json list \<times> log_event list
     \<Rightarrow> py_error + (json list \<times> log_event list)" where
  "gather_sources lib ev token [] acc = Inr acc"
| "gather_sources lib ev token (source # rest) acc =
     and_then (extend_from_source lib ev token source acc) (gather_sources lib ev token rest)"

text \<open>
  The files under the repository root, by name. \<open>main\<close> from \<open>packages_obj = ...\<close> to the
  writing of \<open>repository.json\<close>: the index is written, read back as bytes and hashed; the
  descriptor carries the hash, the clock and, when \<open>resources.zip\<close> exists, the same for it.
\<close>

type_synonym files = "string \<Rightarrow> bytes option"

record written =
  out_files :: files
  repo_json :: json

definition dump_to :: "pylib \<Rightarrow> string \<Rightarrow> json \<Rightarrow> files \<Rightarrow> files" where
  "dump_to lib path obj fs = fs (path \<mapsto> utf8_encode lib (json_dumps lib obj))"

definition stamp :: "env \<Rightarrow> string \<Rightarrow> string \<Rightarrow> nat \<Rightarrow> json" where
  "stamp ev url sha n =
     JObj [(''url'', JStr url), (''sha256'', JStr sha),
           (''update_time_utc'', JStr (now_utc_str ev n)),
           (''update_timestamp'', JInt (time_time ev n))]"

definition write_index ::
  "pylib \<Rightarrow> env \<Rightarrow> json \<Rightarrow> json \<Rightarrow> json list \<Rightarrow> files \<Rightarrow> py_error + written" where
  "write_index lib ev repo_name maintainer_block all_packages fs =
     (let fs1 = dump_to lib ''packages.json'' (JObj [(''packages'', JArr all_packages)]) fs
      in case fs1 ''packages.json'' of
           None \<Rightarrow> Inl FileNotFoundError
         | Some pk_bytes \<Rightarrow>
             (let pk_sha = sha256_hex lib pk_bytes;
                  repo_fullname = (case environ ev ''GITHUB_REPOSITORY'' of
                                     Some r \<Rightarrow> r
                                   | None \<Rightarrow> ''justinlevinedotme/jal-kicad-pcm'');
                  raw = ''https://raw.githubusercontent.com/'' @ repo_fullname @ ''/main/'';
                  descriptor =
                    JObj ([(''$schema'', JStr (''https://gitlab.com/kicad/code/kicad/-/raw/master/''
                              @ ''kicad/pcm/schemas/pcm.v1.schema.json#/definitions/Repository'')),
                           (''name'', repo_name),
                           (''maintainer'', maintainer_block),
                           (''packages'', stamp ev (raw @ ''packages.json'') pk_sha 0)]
                          @ (case fs1 ''resources.zip'' of
                               Some res_bytes \<Rightarrow>
                                 [(''resources'',
                                   stamp ev (raw @ ''resources.zip'') (sha256_hex lib res_bytes) 1)]
                             | None \<Rightarrow> []))
              in Inr \<lparr> out_files = dump_to lib ''repository.json'' descriptor fs1,
                       repo_json = descriptor \<rparr>))"

text \<open>The \<open>sha256\<close> under \<open>packages\<close> in the descriptor.\<close>

definition descriptor_sha256 :: "json \<Rightarrow> json option" where
  "descriptor_sha256 d =
     (case d of
        JObj kvs \<Rightarrow>
          (case map_of kvs ''packages'' of Some (JObj sub) \<Rightarrow> map_of sub ''sha256'' | _ \<Rightarrow> None)
      | _ \<Rightarrow> None)"

record config =
  cfg_sources :: "src list option"
  cfg_maintainer :: "json option"
  cfg_name :: "json option"

definition main :: "pylib \<Rightarrow> env \<Rightarrow> config \<Rightarrow> files \<Rightarrow> py_error + (written \<times> log_event list)" where
  "main lib ev cfg fs =
     (let sources = (case cfg_sources cfg of Some xs \<Rightarrow> xs | None \<Rightarrow> []);
          maintainer_block =
            (case cfg_maintainer cfg of
               Some m \<Rightarrow> m
             | None \<Rightarrow> JObj [(''name'', JStr ''Unknown''), (''contact'', JObj [])]);
          repo_name = (case cfg_name cfg of
                         Some n \<Rightarrow> n
                       | None \<Rightarrow> JStr ''Custom KiCad PCM Repository'');
          token = first_nonempty (environ ev ''GITHUB_TOKEN'') (environ ev ''GH_TOKEN'')
      in and_then (gather_sources lib ev token sources ([], []))
           (\<lambda>gathered.
              and_then (write_index lib ev repo_name maintainer_block (fst gathered) fs)
                (\<lambda>w. Inr (w, snd gathered @ [LogWrote (length (fst gathered))]))))"

section \<open>The resource-bundle packer\<close>

text \<open>
  What the surroundings answer the packer: whether \<open>assets/\<close> and \<open>resources.zip\<close> exist,
  and for each call that can fail either the exception it raises or its result. The calls
  are those on the file system and the two kinds of \<open>print\<close>: \<open>stdout_write\<close> is the
  exception a \<open>print\<close> of \<open>main\<close> raises, \<open>stderr_write\<close> the one the \<open>print\<close> to
  \<open>sys.stderr\<close> in the handler raises (an \<open>OSError\<close> when the stream cannot be written),
  and \<open>flush_fails\<close> says that the interpreter cannot flush the standard streams when it
  shuts down. An \<open>exc\<close> is an instance of a subclass of \<open>Exception\<close>, with the text
  \<open>str(e)\<close>; every failure of these calls is one.
\<close>

datatype exc = Exc string

record packer_env =
  assets_exists :: bool
  out_zip_exists :: bool
  unlink_out_zip :: "exc option"
  package_dirs :: "exc + string list"
  build_zip :: "exc option"
  out_zip_size :: "exc + nat"
  stdout_write :: "exc option"
  stderr_write :: "exc option"
  flush_fails :: bool

datatype packer_line =
    RemovedStaleNoAssets
  | NothingNoAssets
  | RemovedStaleEmpty
  | NothingEmpty
  | Built nat nat
  | Warning string

text \<open>A \<open>print\<close> of \<open>main\<close>; each path of \<open>main\<close> prints once, as its last call.\<close>

definition packer_print :: "packer_env \<Rightarrow> packer_line \<Rightarrow> exc + packer_line list" where
  "packer_print pe line = (case stdout_write pe of Some e \<Rightarrow> Inl e | None \<Rightarrow> Inr [line])"

definition remove_stale :: "packer_env \<Rightarrow> packer_line \<Rightarrow> packer_line \<Rightarrow> exc + packer_line list" where
  "remove_stale pe removed nothing =
     (if out_zip_exists pe then
        (case unlink_out_zip pe of Some e \<Rightarrow> Inl e | None \<Rightarrow> packer_print pe removed)
      else packer_print pe nothing)"

definition packer_main :: "packer_env \<Rightarrow> exc + packer_line list" where
  "packer_main pe =
     (if \<not> assets_exists pe then remove_stale pe RemovedStaleNoAssets NothingNoAssets
      else
        (case package_dirs pe of
           Inl e \<Rightarrow> Inl e
         | Inr pkg_dirs \<Rightarrow>
             if pkg_dirs = [] then remove_stale pe RemovedStaleEmpty NothingEmpty
             else
               (case build_zip pe of
                  Some e \<Rightarrow> Inl e
                | None \<Rightarrow>
                    (case out_zip_size pe of
                       Inl e \<Rightarrow> Inl e
                     | Inr n \<Rightarrow> packer_print pe (Built n (length pkg_dirs))))))"

text \<open>
  How a script ends: the block under \<open>if __name__ == "__main__"\<close> returns, calls
  \<open>sys.exit(n)\<close> or lets an exception escape.
  \<^verbatim>\<open>try: main()
  except Exception as e:
      print(f"[update_resources] warning: {e}", file=sys.stderr); sys.exit(0)\<close>
  The \<open>print\<close> of the handler is inside no \<open>try\<close>: when it raises, \<open>sys.exit(0)\<close> is not
  reached and its exception escapes. The traceback of an escaped exception is not among
  the lines of \<open>stderr\<close> here.
\<close>

datatype ending = Returned | SysExit int | Uncaught exc

record process =
  stdout :: "packer_line list"
  stderr :: "packer_line list"
  ended :: ending

definition update_resources :: "packer_env \<Rightarrow> process" where
  "update_resources pe =
     (case packer_main pe of
        Inr printed \<Rightarrow> \<lparr> stdout = printed, stderr = [], ended = Returned \<rparr>
      | Inl (Exc msg) \<Rightarrow>
          (case stderr_write pe of
             None \<Rightarrow> \<lparr> stdout = [], stderr = [Warning msg], ended = SysExit 0 \<rparr>
           | Some e \<Rightarrow> \<lparr> stdout = [], stderr = [], ended = Uncaught e \<rparr>))"

text \<open>
  The exit status of the interpreter: 0 after a return, \<open>n\<close> after \<open>sys.exit(n)\<close>, 1 after
  an escaped exception; and 120 in place of any of them when the standard streams cannot
  be flushed at shutdown.
\<close>

fun exit_status :: "ending \<Rightarrow> int" where
  "exit_status Returned = 0"
| "exit_status (SysExit n) = n"
| "exit_status (Uncaught e) = 1"

definition exit_code :: "packer_env \<Rightarrow> int" where
  "exit_code pe = (if flush_fails pe then 120 else exit_status (ended (update_resources pe)))"


section \<open>Properties of a scan\<close>

text \<open>
  Every package has pairwise distinct version strings; the display fields of a package;
  and, for a package \<open>p\<close> stored under \<open>k\<close>, that the dictionary still has under \<open>k\<close> a
  package with the display fields of \<open>p\<close> and with the resources of \<open>p\<close>, as they were or
  with the local icon and screenshot filled in.
\<close>

definition versions_distinct :: "(string \<times> package) list \<Rightarrow> bool" where
  "versions_distinct ps \<longleftrightarrow> (\<forall>p \<in> snd ` set ps. distinct (map version (versions p)))"

definition display_fields :: "package \<Rightarrow> json \<times> json \<times> json \<times> json option \<times> json \<times> json option \<times> json option" where
  "display_fields p =
     (pkg_name p, pkg_type p, description p, description_full p, license p, author p, maintainer p)"

definition kept :: "env \<Rightarrow> string \<Rightarrow> package \<Rightarrow> (string \<times> package) list \<Rightarrow> bool" where
  "kept ev k p ps \<longleftrightarrow>
     (\<exists>p1. map_of ps k = Some p1 \<and> display_fields p1 = display_fields p
        \<and> (resources p1 = resources p \<or> auto_wire ev k (resources p) = Inr (resources p1)))"


section \<open>Inputs for the examples\<close>

text \<open>
  An instance of the library and of the surroundings on which the definitions can be run.
  The digest and the dump are stand-ins, \<open>json.loads\<close> is a table from texts to values,
  \<open>str\<close> and \<open>int\<close> are given on strings and integers only, and every downloaded body is
  read as a zip file whose only member is \<open>manifest.json\<close> with the body as its text. The
  theorems hold for every library and every surroundings; these instances serve the
  examples.
\<close>

definition demo_lib :: "(string \<times> json) list \<Rightarrow> pylib" where
  "demo_lib table =
     \<lparr> sha256_hex = (\<lambda>b. ''sha256:'' @ b),
       json_loads = map_of table,
       json_dumps = (\<lambda>v. ''{}''),
       py_str = (\<lambda>v. case v of JStr s \<Rightarrow> s | _ \<Rightarrow> ''other''),
       py_int = (\<lambda>v. case v of JInt n \<Rightarrow> Some n | _ \<Rightarrow> None),
       utf8_decode = Some,
       utf8_encode = (\<lambda>s. s),
       zip_open = (\<lambda>b. Some [(''manifest.json'', Some b)]),
       tar_open = (\<lambda>b. None) \<rparr>"

definition demo_env :: "(string \<times> bytes) list \<Rightarrow> release list \<Rightarrow> env" where
  "demo_env bodies listed =
     \<lparr> http_get = (\<lambda>url. case map_of bodies url of Some b \<Rightarrow> Inr b | None \<Rightarrow> Inl URLError),
       gh_api = (\<lambda>path token. Inr listed),
       assets_dir_exists = (\<lambda>k. False),
       icon_exists = (\<lambda>k. False),
       screenshot_exists = (\<lambda>k. False),
       now_utc_str = (\<lambda>n. ''2025-01-01 00:00:00''),
       time_time = (\<lambda>n. 1735689600),
       environ = (\<lambda>k. None) \<rparr>"

definition demo_src :: src where
  "demo_src =
     \<lparr> src_id = Some ''board'', src_mode = Some ''release_scan'', repo = Some ''me/board'',
       asset_glob = None, only_latest = False, packages_url = Some ''mirror'' \<rparr>"

definition demo_asset :: "string \<Rightarrow> string \<Rightarrow> asset" where
  "demo_asset n u = \<lparr> asset_name = Some n, browser_download_url = Some u \<rparr>"

definition demo_release :: "string \<Rightarrow> asset list \<Rightarrow> release" where
  "demo_release tag xs = \<lparr> tag_name = Some tag, created_at = ''2025-01-01'', assets = xs \<rparr>"

definition demo_state :: scan_state where
  "demo_state = \<lparr> packages = [], logged = [], matched = 0 \<rparr>"

definition demo_mirror :: pydict where
  "demo_mirror = [(''packages'', JArr []), (''data'', JArr [JStr ''pkg''])]"

text \<open>
  \<open>resources.zip\<close> is a directory, so opening it for writing raises inside \<open>main\<close>, and the
  standard error is a full device: the handler's \<open>print\<close> raises and the stream cannot be
  flushed at shutdown.
\<close>

definition demo_packer_env :: packer_env where
  "demo_packer_env =
     \<lparr> assets_exists = True, out_zip_exists = True, unlink_out_zip = None,
       package_dirs = Inr [''com.example.foo''],
       build_zip = Some (Exc ''[Errno 21] Is a directory: resources.zip''),
       out_zip_size = Inr 0, stdout_write = None,
       stderr_write = Some (Exc ''[Errno 28] No space left on device''),
       flush_fails = True \<rparr>"

definition demo_fields :: "string \<Rightarrow> string \<Rightarrow> pydict" where
  "demo_fields nm ver =
     [(''identifier'', JStr ''com.example.foo''), (''name'', JStr nm), (''version'', JStr ver)]"

definition demo_two_lib :: "string \<Rightarrow> pylib" where
  "demo_two_lib ver2 =
     demo_lib [(''m1'', JObj (demo_fields ''First'' ''1.0.0'')),
               (''m2'', JObj (demo_fields ''Second'' ver2))]"

definition demo_two_env :: env where
  "demo_two_env =
     demo_env [(''u1'', ''m1''), (''u2'', ''m2'')]
       [demo_release ''v1'' [demo_asset ''a.zip'' ''u1'', demo_asset ''b.zip'' ''u2'']]"

definition demo_sort_lib :: pylib where
  "demo_sort_lib =
     demo_lib [(''m1'', JObj (demo_fields ''Foo'' ''1.2.0'')),
               (''m2'', JObj (demo_fields ''Foo'' ''1.9.0'')),
               (''m3'', JObj (demo_fields ''Foo'' ''1.10.0''))]"

definition demo_sort_env :: env where
  "demo_sort_env =
     demo_env [(''u1'', ''m1''), (''u2'', ''m2''), (''u3'', ''m3'')]
       [demo_release ''v1'' [demo_asset ''a.zip'' ''u1'', demo_asset ''b.zip'' ''u2'',
                              demo_asset ''c.zip'' ''u3'']]"

definition demo_rx :: "rx_item list" where
  "demo_rx = [Bol, AnyStar, Lit CHR ''.'', Lit CHR ''z'', Lit CHR ''i'', Lit CHR ''p'', Eol]"

definition demo_first_pkg :: package where
  "demo_first_pkg =
     \<lparr> pkg_identifier = ''com.example.foo'', pkg_name = JStr ''First'',
       pkg_type = JStr ''library'', description = JStr ''com.example.foo package'',
       description_full = None, license = JStr [], author = None, maintainer = None,
       resources = JObj [],
       versions =
         [\<lparr> version = ''1.0.0'',
            download_url = ''https://github.com/me/board/releases/download/v1/a.zip'',
            download_sha256 = ''sha256:m1'', download_size = 2, status = ''testing'',
            kicad_version = ''8.0'', install_size = None \<rparr>] \<rparr>"

definition demo_first_state :: scan_state where
  "demo_first_state =
     \<lparr> packages = [(''com.example.foo'', demo_first_pkg)], logged = [], matched = 0 \<rparr>"

definition demo_doc :: string where
  "demo_doc =
     ''{\<newline>  // the board\<newline>  \"homepage\": \"https://example.com/foo\",\<newline>}''"

definition demo_doc_clean :: string where
  "demo_doc_clean = ''{\<newline>  \"homepage\": \"https://example.com/foo\"\<newline>}''"

definition demo_doc_cut :: string where
  "demo_doc_cut = ''{\<newline>  \<newline>  \"homepage\": \"https:\<newline>}''"

definition demo_doc_lib :: pylib where
  "demo_doc_lib =
     demo_lib [(demo_doc_clean, JObj [(''homepage'', JStr ''https://example.com/foo'')])]"

definition demo_sized :: "json \<Rightarrow> pydict" where
  "demo_sized n = [(''version'', JStr ''1.0''), (''install_size'', n)]"


section \<open>The glob matcher agrees with shell globbing\<close>

lemma str_replace2_Nil: "str_replace [a, b] new [] = []"
  by (subst str_replace.simps) simp

lemma str_replace2_hit: "str_replace [a, b] new (a # b # s) = new @ str_replace [a, b] new s"
  by (subst str_replace.simps) simp

lemma str_replace2_miss_fst:
  "x \<noteq> a \<Longrightarrow> str_replace [a, b] new (x # s) = x # str_replace [a, b] new s"
  by (subst str_replace.simps) (cases s; simp)

lemma str_replace2_miss_snd:
  "y \<noteq> b \<Longrightarrow> str_replace [a, b] new (x # y # s) = x # str_replace [a, b] new (y # s)"
  by (subst str_replace.simps) simp

lemma str_replace2_single: "str_replace [a, b] new [x] = [x]"
  by (subst str_replace.simps) (simp add: str_replace2_Nil)

lemma str_replace2_free:
  "a \<notin> set t \<Longrightarrow> str_replace [a, b] new (t @ s) = t @ str_replace [a, b] new s"
proof (induction t)
  case Nil
  show ?case by simp
next
  case (Cons x t)
  then have "x \<noteq> a" by auto
  with Cons show ?case by (simp add: str_replace2_miss_fst)
qed

lemma concat_ok_hd:
  "\<forall>t\<in>set toks. tok_ok a b t \<Longrightarrow> concat toks = [] \<or> hd (concat toks) \<noteq> b"
  by (cases toks) (auto simp: tok_ok_def)

lemma str_replace2_tokens:
  assumes "\<forall>t\<in>set toks. tok_ok a b t"
  shows "str_replace [a, b] new (concat toks)
           = concat (map (\<lambda>t. if t = [a, b] then new else t) toks)"
  using assms
proof (induction toks)
  case Nil
  show ?case by (simp add: str_replace2_Nil)
next
  case (Cons t toks)
  define rest where "rest = concat toks"
  have ih: "str_replace [a, b] new rest = concat (map (\<lambda>t. if t = [a, b] then new else t) toks)"
    using Cons by (simp add: rest_def)
  have hd_rest: "rest = [] \<or> hd rest \<noteq> b"
    using Cons.prems concat_ok_hd[of toks a b] by (simp add: rest_def)
  have goal_eq: "concat (t # toks) = t @ rest" by (simp add: rest_def)
  have ok: "tok_ok a b t" using Cons.prems by simp
  show ?case
  proof (cases "a \<in> set t")
    case False
    then have "t \<noteq> [a, b]" by auto
    with False show ?thesis unfolding goal_eq by (simp add: str_replace2_free ih)
  next
    case True
    with ok have "length t = 2" and "hd t = a" by (auto simp: tok_ok_def)
    then obtain d where t: "t = [a, d]" by (cases t; cases "tl t") auto
    show ?thesis
    proof (cases "d = b")
      case True
      with t show ?thesis unfolding goal_eq by (simp add: str_replace2_hit ih)
    next
      case False
      have step: "str_replace [a, b] new (d # rest) = d # str_replace [a, b] new rest"
      proof (cases "d = a")
        case False
        then show ?thesis by (simp add: str_replace2_miss_fst)
      next
        case True
        show ?thesis
        proof (cases rest)
          case Nil
          then show ?thesis by (simp add: str_replace2_single str_replace2_Nil)
        next
          case (Cons x xs)
          with hd_rest have "x \<noteq> b" by simp
          with Cons True show ?thesis by (simp add: str_replace2_miss_snd)
        qed
      qed
      from False t show ?thesis
        unfolding goal_eq by (simp add: str_replace2_miss_snd step ih)
    qed
  qed
qed

lemma backslash_special: "backslash \<in> set re_special_chars"
  by (simp add: re_special_chars_def)

lemma escape_tok_ok:
  "b \<in> set re_special_chars \<Longrightarrow> b \<noteq> backslash \<Longrightarrow> tok_ok backslash b (escape_char c)"
  using backslash_special by (auto simp: tok_ok_def escape_char_def)

lemma replace_star:
  "str_replace [backslash, CHR ''*''] ''.*'' (re_escape p)
     = concat (map (\<lambda>c. if c = CHR ''*'' then ''.*'' else escape_char c) p)"
proof -
  have sp: "CHR ''*'' \<in> set re_special_chars" "CHR ''*'' \<noteq> backslash"
    by (simp_all add: re_special_chars_def backslash_def)
  have "\<forall>t\<in>set (map escape_char p). tok_ok backslash CHR ''*'' t"
    using escape_tok_ok[OF sp] by simp
  from str_replace2_tokens[OF this, of "''.*''"]
  have "str_replace [backslash, CHR ''*''] ''.*'' (re_escape p)
     = concat (map ((\<lambda>t. if t = [backslash, CHR ''*''] then ''.*'' else t) \<circ> escape_char) p)"
    by (simp add: re_escape_def)
  moreover have "(\<lambda>t. if t = [backslash, CHR ''*''] then ''.*'' else t) \<circ> escape_char
      = (\<lambda>c. if c = CHR ''*'' then ''.*'' else escape_char c)"
    using sp by (auto simp: fun_eq_iff escape_char_def)
  ultimately show ?thesis by simp
qed

lemma replace_question:
  "str_replace [backslash, CHR ''?''] ''.''
     (concat (map (\<lambda>c. if c = CHR ''*'' then ''.*'' else escape_char c) p))
     = concat (map glob_token p)"
proof -
  let ?f = "\<lambda>c. if c = CHR ''*'' then ''.*'' else escape_char c"
  have sp: "CHR ''?'' \<in> set re_special_chars" "CHR ''?'' \<noteq> backslash"
    by (simp_all add: re_special_chars_def backslash_def)
  have "tok_ok backslash CHR ''?'' (?f c)" for c
    using escape_tok_ok[OF sp, of c] by (simp add: tok_ok_def backslash_def)
  then have "\<forall>t\<in>set (map ?f p). tok_ok backslash CHR ''?'' t" unfolding set_map by blast
  from str_replace2_tokens[OF this, of "''.''"]
  have "str_replace [backslash, CHR ''?''] ''.'' (concat (map ?f p))
     = concat (map ((\<lambda>t. if t = [backslash, CHR ''?''] then ''.'' else t) \<circ> ?f) p)"
    by simp
  moreover have "(\<lambda>t. if t = [backslash, CHR ''?''] then ''.'' else t) \<circ> ?f = glob_token"
    using sp by (auto simp: fun_eq_iff escape_char_def glob_token_def backslash_def)
  ultimately show ?thesis by simp
qed

lemma glob_regex_tokens: "glob_regex p = ''^'' @ concat (map glob_token p) @ ''$''"
  by (simp add: glob_regex_def replace_star replace_question)

lemma glob_token_hd: "glob_token c \<noteq> [] \<and> hd (glob_token c) \<noteq> CHR ''*''"
  by (simp add: glob_token_def escape_char_def backslash_def)

lemma tokens_hd:
  "concat (map glob_token p) @ ''$'' \<noteq> [] \<and> hd (concat (map glob_token p) @ ''$'') \<noteq> CHR ''*''"
  using glob_token_hd by (cases p) (auto)

lemma re_parse_tokens:
  "re_parse (concat (map glob_token p) @ ''$'') = Some (map glob_item p @ [Eol])"
proof (induction p)
  case Nil
  show ?case by (simp add: backslash_def re_meta_chars_def)
next
  case (Cons c p)
  let ?rest = "concat (map glob_token p) @ ''$''"
  obtain d ds where rest: "?rest = d # ds" and d: "d \<noteq> CHR ''*''"
    using tokens_hd[of p] by (cases ?rest) auto
  consider (star) "c = CHR ''*''" | (quest) "c = CHR ''?''"
    | (special) "c \<noteq> CHR ''*''" "c \<noteq> CHR ''?''" "c \<in> set re_special_chars"
    | (plain) "c \<notin> set re_special_chars" by blast
  then show ?case
  proof cases
    case star
    then show ?thesis
      using Cons.IH by (simp add: glob_token_def glob_item_def backslash_def)
  next
    case quest
    have "re_parse (CHR ''.'' # ?rest) = map_option (Cons AnyChar) (re_parse ?rest)"
      using d unfolding rest by (simp add: backslash_def)
    moreover have "concat (map glob_token (c # p)) @ ''$'' = CHR ''.'' # ?rest"
      using quest by (simp add: glob_token_def)
    moreover have "map glob_item (c # p) @ [Eol] = AnyChar # map glob_item p @ [Eol]"
      using quest by (simp add: glob_item_def)
    ultimately show ?thesis
      using Cons.IH by simp
  next
    case special
    then show ?thesis
      using Cons.IH by (simp add: glob_token_def glob_item_def escape_char_def)
  next
    case plain
    then have "c \<noteq> backslash" "c \<noteq> CHR ''.''" "c \<noteq> CHR ''^''" "c \<noteq> CHR ''$''"
      "c \<notin> set re_meta_chars" "c \<noteq> CHR ''*''" "c \<noteq> CHR ''?''"
      by (auto simp: re_special_chars_def re_meta_chars_def)
    with plain show ?thesis
      using Cons.IH by (simp add: glob_token_def glob_item_def escape_char_def)
  qed
qed

lemma re_parse_glob_regex: "re_parse (glob_regex p) = Some (Bol # map glob_item p @ [Eol])"
  by (simp add: glob_regex_tokens re_parse_tokens backslash_def)

lemma rx_match_glob:
  "newline \<notin> set f \<Longrightarrow> rx_match_here (map glob_item p @ [Eol]) b f = glob_match p f"
proof (induction p f arbitrary: b rule: glob_match.induct)
  case (1 f)
  then show ?case by auto
next
  case (2 c p)
  then show ?case by (simp add: glob_item_def)
next
  case (3 c p x f)
  then show ?case by (auto simp: glob_item_def)
qed

text \<open>
  Claim C1, as amended. For every glob pattern \<open>p\<close> and every filename \<open>f\<close> with no newline
  character in it, the pattern compiles and the scanner's matcher accepts \<open>f\<close> if and only
  if \<open>f\<close> matches \<open>p\<close> under shell-glob semantics restricted to \<open>*\<close> and \<open>?\<close>.
\<close>

theorem asset_matches_glob:
  "newline \<notin> set f \<Longrightarrow> asset_matches p f = Some (glob_match p f)"
  by (simp add: asset_matches_def re_match_def re_parse_glob_regex rx_match_glob)

theorem asset_matches_glob_witness:
  "newline \<notin> set ''board-1.2.zip'' \<and> asset_matches ''*-?.?.zip'' ''board-1.2.zip'' = Some True"
  using asset_matches_glob [of "''board-1.2.zip''" "''*-?.?.zip''"]
  by (simp add: newline_def)

text \<open>
  Claim C1 as stated fails on a filename with a newline in it: \<open>.\<close> never matches a newline,
  so \<open>*\<close> does not accept the three characters a, newline, b; and \<open>$\<close> holds before a
  final newline, so the pattern \<open>a\<close> accepts the two characters a, newline.
\<close>

theorem asset_matches_newline_counterexample:
  "asset_matches ''*'' [CHR ''a'', CHR 0x0A, CHR ''b''] = Some False
   \<and> glob_match ''*'' [CHR ''a'', CHR 0x0A, CHR ''b'']
   \<and> asset_matches ''a'' [CHR ''a'', CHR 0x0A] = Some True
   \<and> \<not> glob_match ''a'' [CHR ''a'', CHR 0x0A]"
  by (simp add: asset_matches_def glob_regex_def re_match_def re_escape_def escape_char_def
      re_special_chars_def re_meta_chars_def backslash_def newline_def str_replace.simps)

section \<open>Calls that may raise\<close>

lemma and_then_Inr: "and_then r f = Inr y \<longleftrightarrow> (\<exists>x. r = Inr x \<and> f x = Inr y)"
  by (cases r) (simp_all add: and_then_def)

lemma and_then_simps [simp]: "and_then (Inl e) f = Inl e" "and_then (Inr x) f = f x"
  by (simp_all add: and_then_def)

section \<open>The packer and a failure it cannot report\<close>

text \<open>
  When the warning can be written and the streams can be flushed, the script ends with
  exit status 0 whatever \<open>main\<close> does, and an exception of \<open>main\<close> is printed as a warning.
\<close>

lemma packer_status_when_writable:
  assumes "stderr_write pe = None" and "\<not> flush_fails pe"
  shows "exit_code pe = 0"
    and "packer_main pe = Inl (Exc msg) \<Longrightarrow>
           ended (update_resources pe) = SysExit 0
           \<and> stderr (update_resources pe) = [Warning msg]"
  using assms
  by (cases "packer_main pe"; auto simp: exit_code_def update_resources_def split: exc.splits)+

text \<open>
  Claim C9 at a packing failure with an unwritable standard error. \<open>main\<close> raises, the
  handler's \<open>print\<close> raises in its turn, \<open>sys.exit(0)\<close> is not reached and the exception of
  the \<open>print\<close> escapes: no warning is logged and the exit status is 120, or 1 if the
  streams can be flushed at shutdown. The claim has every exception of \<open>main\<close> end in a
  logged warning and exit status 0.
\<close>

theorem packer_fails_on_unwritable_stderr:
  "packer_main demo_packer_env = Inl (Exc ''[Errno 21] Is a directory: resources.zip'')
   \<and> ended (update_resources demo_packer_env)
       = Uncaught (Exc ''[Errno 28] No space left on device'')
   \<and> stderr (update_resources demo_packer_env) = []
   \<and> exit_code demo_packer_env = 120
   \<and> exit_code (demo_packer_env \<lparr> flush_fails := False \<rparr>) = 1"
  by (simp add: exit_code_def update_resources_def packer_main_def demo_packer_env_def)

section \<open>The mirror importer on an object\<close>

text \<open>
  Claim C10. When the mirror document parses to a JSON object, the importer returns the
  value under \<open>packages\<close> if that value is truthy, otherwise the value under \<open>data\<close> if that
  one is truthy, otherwise the empty list: an empty list under \<open>packages\<close> falls through to
  \<open>data\<close>, and an object with neither key gives the empty list and no error.
\<close>

theorem mirror_object:
  assumes "packages_url source = Some url" and "http_get ev url = Inr body"
    and "utf8_decode lib body = Some text" and "json_loads lib text = Some (JObj d)"
  shows "\<exists>r. build_from_mirror lib ev source = Inr r
           \<and> (\<forall>v. map_of d ''packages'' = Some v \<and> py_truthy v \<longrightarrow> r = v)
           \<and> ((\<forall>v. map_of d ''packages'' = Some v \<longrightarrow> \<not> py_truthy v) \<longrightarrow>
                (\<forall>w. map_of d ''data'' = Some w \<and> py_truthy w \<longrightarrow> r = w)
                \<and> ((\<forall>w. map_of d ''data'' = Some w \<longrightarrow> \<not> py_truthy w) \<longrightarrow> r = JArr []))"
  using assms
  by (auto simp: build_from_mirror_def mirror_packages_def get_truthy_def split: option.splits)

theorem mirror_object_witness:
  "build_from_mirror (demo_lib [(''body'', JObj demo_mirror)]) (demo_env [(''mirror'', ''body'')] [])
     demo_src = Inr (JArr [JStr ''pkg''])
   \<and> build_from_mirror (demo_lib [(''body'', JObj [])]) (demo_env [(''mirror'', ''body'')] [])
     demo_src = Inr (JArr [])"
proof -
  have a: "packages_url demo_src = Some ''mirror''" by (simp add: demo_src_def)
  have b: "http_get (demo_env [(''mirror'', ''body'')] []) ''mirror'' = Inr ''body''"
    by (simp add: demo_env_def)
  have c: "utf8_decode (demo_lib t) ''body'' = Some ''body''" for t by (simp add: demo_lib_def)
  have d1: "json_loads (demo_lib [(''body'', JObj demo_mirror)]) ''body'' = Some (JObj demo_mirror)"
    by (simp add: demo_lib_def)
  have d2: "json_loads (demo_lib [(''body'', JObj [])]) ''body'' = Some (JObj [])"
    by (simp add: demo_lib_def)
  from mirror_object [OF a b c d1] mirror_object [OF a b c d2]
  show ?thesis by (auto simp: demo_mirror_def)
qed

section \<open>The index writer is deterministic\<close>

text \<open>
  Claim C8. Two runs of the index writer on the same package list, whatever the clock, the
  environment variables, the repository name, the maintainer block and the files already
  there, write the same bytes to \<open>packages.json\<close>: the encoded dump of the envelope with
  the list under \<open>packages\<close>. The hash put in the descriptor is in both runs the digest of
  exactly these bytes.
\<close>

theorem index_writer_deterministic:
  "\<exists>w1 w2 b.
      write_index lib ev1 name1 maintainer1 pkgs fs1 = Inr w1
    \<and> write_index lib ev2 name2 maintainer2 pkgs fs2 = Inr w2
    \<and> b = utf8_encode lib (json_dumps lib (JObj [(''packages'', JArr pkgs)]))
    \<and> out_files w1 ''packages.json'' = Some b
    \<and> out_files w2 ''packages.json'' = Some b
    \<and> descriptor_sha256 (repo_json w1) = Some (JStr (sha256_hex lib b))
    \<and> descriptor_sha256 (repo_json w2) = Some (JStr (sha256_hex lib b))"
  by (simp add: write_index_def dump_to_def descriptor_sha256_def stamp_def Let_def)

section \<open>What one asset does to the packages\<close>


lemma map_of_dict_set: "map_of (dict_set d k v) k' = (if k' = k then Some v else map_of d k')"
  by (induction d k v rule: dict_set.induct) auto

lemma set_dict_set: "x \<in> set (dict_set d k v) \<Longrightarrow> x = (k, v) \<or> x \<in> set d"
  by (induction d k v rule: dict_set.induct) (auto split: if_splits)

lemma merge_asset_cases:
  assumes "merge_asset lib ev source owner_repo tag name data manifest mf_name st = Inr st'"
  obtains k pkg res v where
    "package_id manifest source = Inr k"
    "pkg = setdefault (packages st) k (new_package k manifest)"
    "auto_wire ev k (resources pkg) = Inr res"
    "version_str manifest tag = Inr v"
    "(v \<in> version ` set (versions pkg)
        \<and> packages st' = dict_set (packages st) k (pkg \<lparr> resources := res \<rparr>)
        \<and> logged st' = logged st @ [LogDuplicate v])
     \<or> (v \<notin> version ` set (versions pkg)
        \<and> (\<exists>url. asset_download_url owner_repo tag name = Inr url
             \<and> packages st' = dict_set (packages st) k
                  (pkg \<lparr> resources := res,
                         versions := versions pkg @ [new_version_entry lib v url data manifest] \<rparr>)
             \<and> logged st' = logged st @ [LogOk mf_name v]))"
proof -
  from assms obtain k where k: "package_id manifest source = Inr k"
    unfolding merge_asset_def and_then_Inr by blast
  define pkg where "pkg = setdefault (packages st) k (new_package k manifest)"
  from assms k obtain res where res: "auto_wire ev k (resources pkg) = Inr res"
    unfolding merge_asset_def Let_def pkg_def by (auto simp: and_then_Inr)
  from assms k res obtain v where v: "version_str manifest tag = Inr v"
    unfolding merge_asset_def Let_def pkg_def by (auto simp: and_then_Inr)
  have rest: "(if v \<in> set (map version (versions (pkg \<lparr> resources := res \<rparr>))) then
                   Inr (st \<lparr> packages := dict_set (packages st) k (pkg \<lparr> resources := res \<rparr>),
                            logged := logged st @ [LogDuplicate v] \<rparr>)
                 else
                   and_then (asset_download_url owner_repo tag name) (\<lambda>url.
                     Inr (st \<lparr> packages :=
                                 dict_set (packages st) k
                                   ((pkg \<lparr> resources := res \<rparr>) \<lparr> versions := versions (pkg \<lparr> resources := res \<rparr>)
                                       @ [new_version_entry lib v url data manifest] \<rparr>),
                               logged := logged st @ [LogOk mf_name v] \<rparr>))) = Inr st'"
    using assms k res v unfolding merge_asset_def Let_def pkg_def by simp
  show thesis
  proof (cases "v \<in> version ` set (versions pkg)")
    case True
    with rest have "packages st' = dict_set (packages st) k (pkg \<lparr> resources := res \<rparr>)
        \<and> logged st' = logged st @ [LogDuplicate v]" by auto
    with True k res v pkg_def show thesis by (intro that [of k pkg res v]) auto
  next
    case False
    with rest obtain url where "asset_download_url owner_repo tag name = Inr url"
      and "st' = st \<lparr> packages := dict_set (packages st) k
                                   ((pkg \<lparr> resources := res \<rparr>) \<lparr> versions := versions (pkg \<lparr> resources := res \<rparr>)
                                       @ [new_version_entry lib v url data manifest] \<rparr>),
                               logged := logged st @ [LogOk mf_name v] \<rparr>"
      by (auto simp: and_then_Inr)
    with False k res v pkg_def show thesis by (intro that [of k pkg res v]) auto
  qed
qed

lemma skip_asset_packages: "skip_asset note st = Inr st' \<Longrightarrow> packages st' = packages st"
  by (auto simp: skip_asset_def)

lemma use_manifest_cases:
  assumes "use_manifest lib ev source owner_repo tag name data st = Inr st'"
  shows "packages st' = packages st
     \<or> (\<exists>manifest mf st1. packages st1 = packages st
          \<and> merge_asset lib ev source owner_repo tag name data manifest mf st1 = Inr st')"
proof (cases "fst (read_manifest_from_archive lib data)")
  case None
  with assms show ?thesis
    by (auto simp: use_manifest_def Let_def dest!: skip_asset_packages)
next
  case (Some found)
  obtain j mf where found: "found = (j, mf)" by (cases found)
  show ?thesis
  proof (cases j)
    case (JObj manifest)
    with assms Some found have
      "merge_asset lib ev source owner_repo tag name data manifest mf
         (st \<lparr> logged := logged st @ snd (read_manifest_from_archive lib data) \<rparr>) = Inr st'"
      by (simp add: use_manifest_def Let_def)
    moreover have "packages (st \<lparr> logged := logged st @ snd (read_manifest_from_archive lib data) \<rparr>)
        = packages st" by simp
    ultimately show ?thesis by blast
  qed (use assms Some found in \<open>auto simp: use_manifest_def Let_def dest!: skip_asset_packages\<close>)
qed

lemma scan_asset_cases:
  assumes "scan_asset lib ev source owner_repo rx tag a st = Inr st'"
  shows "packages st' = packages st
     \<or> (\<exists>name data manifest mf st1. packages st1 = packages st
          \<and> merge_asset lib ev source owner_repo tag name data manifest mf st1 = Inr st')"
proof (cases "asset_name a")
  case None
  with assms show ?thesis by (auto simp: scan_asset_def dest!: skip_asset_packages)
next
  case name: (Some name)
  show ?thesis
  proof (cases "browser_download_url a")
    case None
    with assms name show ?thesis by (auto simp: scan_asset_def dest!: skip_asset_packages)
  next
    case url: (Some url)
    show ?thesis
    proof (cases "name = [] \<or> url = [] \<or> \<not> rx_match_here rx True name")
      case True
      with assms name url show ?thesis
        by (auto simp: scan_asset_def split: if_splits dest!: skip_asset_packages)
    next
      case False
      with assms name url obtain data where
        "use_manifest lib ev source owner_repo tag name data
           (st \<lparr> matched := matched st + 1, logged := logged st @ [LogFetch name] \<rparr>) = Inr st'"
        by (auto simp: scan_asset_def and_then_Inr)
      from use_manifest_cases [OF this] show ?thesis by auto
    qed
  qed
qed

lemma scan_asset_packages:
  assumes step: "\<And>tag name data manifest mf st st'.
      P (packages st) \<Longrightarrow>
      merge_asset lib ev source owner_repo tag name data manifest mf st = Inr st' \<Longrightarrow>
      P (packages st')"
    and "P (packages st)"
    and "scan_asset lib ev source owner_repo rx tag a st = Inr st'"
  shows "P (packages st')"
  using scan_asset_cases [OF assms(3)] assms(2) step by metis


lemma scan_assets_packages:
  assumes step: "\<And>tag name data manifest mf st st'.
      P (packages st) \<Longrightarrow>
      merge_asset lib ev source owner_repo tag name data manifest mf st = Inr st' \<Longrightarrow>
      P (packages st')"
    and "P (packages st)"
    and "scan_assets lib ev source owner_repo rx tag as st = Inr st'"
  shows "P (packages st')"
  using assms(2,3)
proof (induction as arbitrary: st)
  case Nil
  then show ?case by simp
next
  case (Cons a as)
  from Cons.prems(2) obtain st1 where
    a: "scan_asset lib ev source owner_repo rx tag a st = Inr st1"
    and rest: "scan_assets lib ev source owner_repo rx tag as st1 = Inr st'"
    by (auto simp: and_then_Inr)
  from step Cons.prems(1) a have "P (packages st1)" by (rule scan_asset_packages)
  then show ?case using rest by (rule Cons.IH)
qed

lemma scan_release_packages:
  assumes step: "\<And>tag name data manifest mf st st'.
      P (packages st) \<Longrightarrow>
      merge_asset lib ev source owner_repo tag name data manifest mf st = Inr st' \<Longrightarrow>
      P (packages st')"
    and "P (packages st)"
    and "scan_release lib ev source owner_repo rx rel st = Inr st'"
  shows "P (packages st')"
proof -
  let ?st0 = "st \<lparr> logged := logged st @ [LogRelease (tag_name rel) (length (assets rel))],
                  matched := 0 \<rparr>"
  from assms(3) obtain st1 where
    run: "scan_assets lib ev source owner_repo rx (tag_name rel) (assets rel) ?st0 = Inr st1"
    and st': "packages st' = packages st1"
    by (auto simp: scan_release_def and_then_Inr split: if_splits)
  have "P (packages ?st0)"
    using assms(2) by simp
  with step have "P (packages st1)" using run by (rule scan_assets_packages)
  then show ?thesis by (simp add: st')
qed

lemma scan_releases_packages:
  assumes step: "\<And>tag name data manifest mf st st'.
      P (packages st) \<Longrightarrow>
      merge_asset lib ev source owner_repo tag name data manifest mf st = Inr st' \<Longrightarrow>
      P (packages st')"
    and "P (packages st)"
    and "scan_releases lib ev source owner_repo rx rels st = Inr st'"
  shows "P (packages st')"
  using assms(2,3)
proof (induction rels arbitrary: st)
  case Nil
  then show ?case by simp
next
  case (Cons rel rels)
  from Cons.prems(2) obtain st1 where
    r: "scan_release lib ev source owner_repo rx rel st = Inr st1"
    and rest: "(if only_latest source then Inr st1
                else scan_releases lib ev source owner_repo rx rels st1) = Inr st'"
    by (auto simp: and_then_Inr)
  from step Cons.prems(1) r have p1: "P (packages st1)" by (rule scan_release_packages)
  show ?case
  proof (cases "only_latest source")
    case True
    with rest p1 show ?thesis by simp
  next
    case False
    with rest have "scan_releases lib ev source owner_repo rx rels st1 = Inr st'" by simp
    with p1 show ?thesis by (rule Cons.IH)
  qed
qed

lemma setdefault_cases:
  "setdefault d k dflt = dflt \<or> (k, setdefault d k dflt) \<in> set d"
  by (auto simp: setdefault_def split: option.splits dest: map_of_SomeD)

lemma merge_asset_distinct:
  assumes "versions_distinct (packages st)"
    and "merge_asset lib ev source owner_repo tag name data manifest mf st = Inr st'"
  shows "versions_distinct (packages st')"
proof -
  from assms(2) obtain k pkg res v where
    pkg: "pkg = setdefault (packages st) k (new_package k manifest)"
    and out: "(v \<in> version ` set (versions pkg)
        \<and> packages st' = dict_set (packages st) k (pkg \<lparr> resources := res \<rparr>)
        \<and> logged st' = logged st @ [LogDuplicate v])
     \<or> (v \<notin> version ` set (versions pkg)
        \<and> (\<exists>url. asset_download_url owner_repo tag name = Inr url
             \<and> packages st' = dict_set (packages st) k
                  (pkg \<lparr> resources := res,
                         versions := versions pkg @ [new_version_entry lib v url data manifest] \<rparr>)
             \<and> logged st' = logged st @ [LogOk mf v]))"
    by (rule merge_asset_cases)
  have d: "distinct (map version (versions pkg))"
    using setdefault_cases [of "packages st" k "new_package k manifest"] assms(1)
    by (auto simp: pkg versions_distinct_def new_package_def)
  have new: "version (new_version_entry lib v url data manifest) = v" for url
    by (simp add: new_version_entry_def base_version_entry_def)
  obtain pkg' where st': "packages st' = dict_set (packages st) k pkg'"
    and d': "distinct (map version (versions pkg'))"
    using out d new by auto
  show ?thesis
    unfolding versions_distinct_def
  proof
    fix p assume "p \<in> snd ` set (packages st')"
    then obtain k' where "(k', p) \<in> set (dict_set (packages st) k pkg')"
      by (auto simp: st')
    then have "p = pkg' \<or> (k', p) \<in> set (packages st)"
      by (auto dest: set_dict_set)
    then show "distinct (map version (versions p))"
      using d' assms(1) by (force simp: versions_distinct_def)
  qed
qed

lemma distinct_sort_reverse:
  "distinct (map k (sort_reverse k xs)) \<longleftrightarrow> distinct (map k xs)"
  by (simp add: sort_reverse_def distinct_map)

lemma scan_listed_result:
  assumes "scan_listed lib ev source owner_repo glob_pat rx listed = Inr (pkgs, lg)"
  obtains st0 st where
    "packages st0 = []"
    "scan_releases lib ev source owner_repo rx (sort_reverse created_at listed) st0 = Inr st"
    "pkgs = map (\<lambda>kv. sort_package_versions (snd kv)) (packages st)"
    "lg = logged st"
proof -
  let ?st0 = "\<lparr> packages = [],
         logged = LogScanning owner_repo (only_latest source) glob_pat
                  # (if sort_reverse created_at listed = [] then [LogNoReleases] else []),
         matched = 0 \<rparr>"
  from assms obtain st where
    "scan_releases lib ev source owner_repo rx (sort_reverse created_at listed) ?st0 = Inr st"
    "pkgs = map (\<lambda>kv. sort_package_versions (snd kv)) (packages st)" "lg = logged st"
    unfolding scan_listed_def Let_def and_then_Inr by auto
  moreover have "packages ?st0 = []" by simp
  ultimately show thesis by (rule that [rotated])
qed

lemma build_result:
  assumes "build_from_release_scan lib ev source token = Inr (pkgs, lg)"
  obtains owner_repo glob_pat rx listed where
    "repo source = Some owner_repo"
    "scan_listed lib ev source owner_repo glob_pat rx listed = Inr (pkgs, lg)"
  using assms unfolding build_from_release_scan_def Let_def
  by (auto simp: and_then_Inr split: option.splits)


section \<open>Version strings are unique within a package\<close>

text \<open>
  Claim C2. In every package a release scan returns, the version strings are pairwise
  distinct. An asset whose computed version string is already among the versions of its
  package is dropped: the versions of the package stay as they are, so the entry first
  recorded for the string is the only one, and the duplicate is logged.
\<close>

theorem versions_unique:
  "(build_from_release_scan lib ev source token = Inr (pkgs, lg) \<longrightarrow>
      (\<forall>p \<in> set pkgs. distinct (map version (versions p))))
   \<and> (merge_asset lib ev source owner_repo tag name data manifest mf st = Inr st'
        \<and> package_id manifest source = Inr k \<and> map_of (packages st) k = Some p0
        \<and> version_str manifest tag = Inr v \<and> v \<in> version ` set (versions p0) \<longrightarrow>
        (\<exists>p1. map_of (packages st') k = Some p1 \<and> versions p1 = versions p0)
        \<and> logged st' = logged st @ [LogDuplicate v])"
proof (intro conjI impI)
  assume "build_from_release_scan lib ev source token = Inr (pkgs, lg)"
  then obtain owner_repo glob_pat rx listed where
    "scan_listed lib ev source owner_repo glob_pat rx listed = Inr (pkgs, lg)"
    by (rule build_result)
  then obtain st0 st1 where
    empty: "packages st0 = []"
    and run: "scan_releases lib ev source owner_repo rx (sort_reverse created_at listed) st0
                = Inr st1"
    and pkgs: "pkgs = map (\<lambda>kv. sort_package_versions (snd kv)) (packages st1)"
    by (rule scan_listed_result)
  have "versions_distinct (packages st0)" by (simp add: empty versions_distinct_def)
  with merge_asset_distinct have "versions_distinct (packages st1)"
    using run by (rule scan_releases_packages)
  then show "\<forall>p \<in> set pkgs. distinct (map version (versions p))"
    by (auto simp: pkgs versions_distinct_def sort_package_versions_def distinct_sort_reverse)
next
  assume a: "merge_asset lib ev source owner_repo tag name data manifest mf st = Inr st'
        \<and> package_id manifest source = Inr k \<and> map_of (packages st) k = Some p0
        \<and> version_str manifest tag = Inr v \<and> v \<in> version ` set (versions p0)"
  then have m: "merge_asset lib ev source owner_repo tag name data manifest mf st = Inr st'"
    by simp
  from m obtain k' pkg res v' where
    "package_id manifest source = Inr k'"
    "pkg = setdefault (packages st) k' (new_package k' manifest)"
    "version_str manifest tag = Inr v'"
    "(v' \<in> version ` set (versions pkg)
        \<and> packages st' = dict_set (packages st) k' (pkg \<lparr> resources := res \<rparr>)
        \<and> logged st' = logged st @ [LogDuplicate v'])
     \<or> (v' \<notin> version ` set (versions pkg)
        \<and> (\<exists>url. asset_download_url owner_repo tag name = Inr url
             \<and> packages st' = dict_set (packages st) k'
                  (pkg \<lparr> resources := res,
                         versions := versions pkg @ [new_version_entry lib v' url data manifest] \<rparr>)
             \<and> logged st' = logged st @ [LogOk mf v']))"
    by (rule merge_asset_cases)
  with a have dropped: "packages st' = dict_set (packages st) k (p0 \<lparr> resources := res \<rparr>)"
    and lg: "logged st' = logged st @ [LogDuplicate v]"
    by (auto simp: setdefault_def)
  from dropped show "(\<exists>p1. map_of (packages st') k = Some p1 \<and> versions p1 = versions p0)"
    by (simp add: map_of_dict_set)
  from lg show "logged st' = logged st @ [LogDuplicate v]" .
qed

text \<open>
  Two assets of one release declare version \<open>1.0.0\<close> for the same identifier: the package
  has the one entry of the first asset, and the second asset is logged as a duplicate.
\<close>

theorem versions_unique_witness:
  "build_from_release_scan (demo_two_lib ''1.0.0'') demo_two_env demo_src None
     = Inr ([demo_first_pkg],
            [LogScanning ''me/board'' False ''*.zip'', LogRelease (Some ''v1'') 2,
             LogFetch ''a.zip'', LogOk ''manifest.json'' ''1.0.0'',
             LogFetch ''b.zip'', LogDuplicate ''1.0.0''])
   \<and> distinct (map version (versions demo_first_pkg))
   \<and> merge_asset (demo_two_lib ''1.0.0'') demo_two_env demo_src ''me/board'' (Some ''v1'')
        ''b.zip'' ''m2'' (demo_fields ''Second'' ''1.0.0'') ''manifest.json'' demo_first_state
       = Inr (demo_first_state \<lparr> logged := [LogDuplicate ''1.0.0''] \<rparr>)
   \<and> map_of (packages (demo_first_state \<lparr> logged := [LogDuplicate ''1.0.0''] \<rparr>))
        ''com.example.foo'' = Some demo_first_pkg"
proof -
  let ?lg = "[LogScanning ''me/board'' False ''*.zip'', LogRelease (Some ''v1'') 2,
             LogFetch ''a.zip'', LogOk ''manifest.json'' ''1.0.0'',
             LogFetch ''b.zip'', LogDuplicate ''1.0.0'']"
  have run: "build_from_release_scan (demo_two_lib ''1.0.0'') demo_two_env demo_src None
     = Inr ([demo_first_pkg], ?lg)"
    by code_simp
  have step: "merge_asset (demo_two_lib ''1.0.0'') demo_two_env demo_src ''me/board'' (Some ''v1'')
        ''b.zip'' ''m2'' (demo_fields ''Second'' ''1.0.0'') ''manifest.json'' demo_first_state
       = Inr (demo_first_state \<lparr> logged := [LogDuplicate ''1.0.0''] \<rparr>)"
    by code_simp
  have id: "package_id (demo_fields ''Second'' ''1.0.0'') demo_src = Inr ''com.example.foo''"
    by code_simp
  have stored: "map_of (packages demo_first_state) ''com.example.foo'' = Some demo_first_pkg"
    by (simp add: demo_first_state_def)
  have ver: "version_str (demo_fields ''Second'' ''1.0.0'') (Some ''v1'') = Inr ''1.0.0''"
    by code_simp
  have seen: "''1.0.0'' \<in> version ` set (versions demo_first_pkg)"
    by (simp add: demo_first_pkg_def)
  from versions_unique [of "demo_two_lib ''1.0.0''" demo_two_env demo_src None "[demo_first_pkg]" ?lg
      "''me/board''" "Some ''v1''" "''b.zip''" "''m2''" "demo_fields ''Second'' ''1.0.0''"
      "''manifest.json''" demo_first_state "demo_first_state \<lparr> logged := [LogDuplicate ''1.0.0''] \<rparr>"
      "''com.example.foo''" demo_first_pkg "''1.0.0''"]
    run step id stored ver seen
  show ?thesis by (simp add: demo_first_state_def)
qed

section \<open>The first manifest decides the display fields\<close>


lemma py_contains_dict_set:
  "py_contains key (JObj (dict_set d key v)) = Inr True"
  by (simp add: map_of_dict_set)

lemma wire_resource_keeps:
  assumes "wire_resource b key rel r = Inr r1" and "py_contains key' r = Inr True"
  shows "py_contains key' r1 = Inr True"
proof (cases r)
  case (JObj d)
  with assms show ?thesis
    by (auto simp: wire_resource_def map_of_dict_set split: if_splits)
qed (use assms in \<open>auto simp: wire_resource_def split: if_splits\<close>)

lemma wire_resource_done:
  assumes "wire_resource b key rel r = Inr r1"
  shows "\<not> b \<or> py_contains key r1 = Inr True"
proof (cases r)
  case (JObj d)
  with assms show ?thesis
    by (auto simp: wire_resource_def map_of_dict_set split: if_splits)
qed (use assms in \<open>auto simp: wire_resource_def split: if_splits\<close>)

lemma wire_resource_stable:
  "\<not> b \<or> py_contains key r = Inr True \<Longrightarrow> wire_resource b key rel r = Inr r"
  by (auto simp: wire_resource_def)

lemma auto_wire_idem:
  assumes "auto_wire ev k r = Inr r2"
  shows "auto_wire ev k r2 = Inr r2"
proof (cases "assets_dir_exists ev k")
  case False
  then show ?thesis by (simp add: auto_wire_def)
next
  case True
  with assms obtain r1 where
    w1: "wire_resource (icon_exists ev k) ''icon'' (k @ ''/icon.png'') r = Inr r1"
    and w2: "wire_resource (screenshot_exists ev k) ''screenshot'' (k @ ''/screenshot.png'') r1
             = Inr r2"
    by (auto simp: auto_wire_def split: sum.splits)
  from wire_resource_done [OF w1] have "\<not> icon_exists ev k \<or> py_contains ''icon'' r2 = Inr True"
    using wire_resource_keeps [OF w2] by blast
  then have s1: "wire_resource (icon_exists ev k) ''icon'' (k @ ''/icon.png'') r2 = Inr r2"
    by (rule wire_resource_stable)
  from wire_resource_done [OF w2]
  have s2: "wire_resource (screenshot_exists ev k) ''screenshot'' (k @ ''/screenshot.png'') r2
              = Inr r2"
    by (rule wire_resource_stable)
  from True s1 s2 show ?thesis by (simp add: auto_wire_def)
qed

lemma merge_asset_kept:
  assumes "kept ev k p (packages st)"
    and "merge_asset lib ev source owner_repo tag name data manifest mf st = Inr st'"
  shows "kept ev k p (packages st')"
proof -
  from assms(1) obtain p1 where p1: "map_of (packages st) k = Some p1"
    and disp: "display_fields p1 = display_fields p"
    and res1: "resources p1 = resources p \<or> auto_wire ev k (resources p) = Inr (resources p1)"
    by (auto simp: kept_def)
  from assms(2) obtain k' pkg res v where
    pkg: "pkg = setdefault (packages st) k' (new_package k' manifest)"
    and wired: "auto_wire ev k' (resources pkg) = Inr res"
    and out: "(v \<in> version ` set (versions pkg)
        \<and> packages st' = dict_set (packages st) k' (pkg \<lparr> resources := res \<rparr>)
        \<and> logged st' = logged st @ [LogDuplicate v])
     \<or> (v \<notin> version ` set (versions pkg)
        \<and> (\<exists>url. asset_download_url owner_repo tag name = Inr url
             \<and> packages st' = dict_set (packages st) k'
                  (pkg \<lparr> resources := res,
                         versions := versions pkg @ [new_version_entry lib v url data manifest] \<rparr>)
             \<and> logged st' = logged st @ [LogOk mf v]))"
    by (rule merge_asset_cases)
  from out obtain vs where st': "packages st' = dict_set (packages st) k'
      (pkg \<lparr> resources := res, versions := vs \<rparr>)"
    by (cases pkg) auto
  show ?thesis
  proof (cases "k' = k")
    case False
    with p1 disp res1 show ?thesis by (auto simp: kept_def st' map_of_dict_set)
  next
    case True
    with pkg p1 have pkg1: "pkg = p1" by (simp add: setdefault_def)
    have "resources p1 = resources p \<or> auto_wire ev k (resources p) = Inr res"
    proof (rule disjCI)
      assume "auto_wire ev k (resources p) \<noteq> Inr res"
      show "resources p1 = resources p"
      proof (rule ccontr)
        assume "resources p1 \<noteq> resources p"
        with res1 have w: "auto_wire ev k (resources p) = Inr (resources p1)" by simp
        from auto_wire_idem [OF w] wired True pkg1 have "res = resources p1" by simp
        with w \<open>auto_wire ev k (resources p) \<noteq> Inr res\<close> show False by simp
      qed
    qed
    moreover
    have "auto_wire ev k (resources p) = Inr res" if "resources p1 = resources p"
      using that wired True pkg1 by simp
    ultimately have "auto_wire ev k (resources p) = Inr res" by blast
    with True pkg1 disp show ?thesis
      by (auto simp: kept_def st' map_of_dict_set display_fields_def)
  qed
qed


text \<open>
  Claim C3. The asset that creates the package of an identifier sets its name, type,
  description, license, long description, author and maintainer from its own manifest,
  and its resources from that manifest with the local icon and screenshot filled in.
  Whatever assets the scan processes afterwards, the package keeps these fields: no later
  manifest overwrites them.
\<close>

theorem first_manifest_wins:
  "(merge_asset lib ev source owner_repo tag name data manifest mf st = Inr st'
      \<and> package_id manifest source = Inr k \<and> map_of (packages st) k = None \<longrightarrow>
      (\<exists>p. map_of (packages st') k = Some p
         \<and> display_fields p = display_fields (new_package k manifest)
         \<and> auto_wire ev k (get_default manifest ''resources'' (JObj [])) = Inr (resources p)))
   \<and> (scan_releases lib ev source owner_repo rx rels st = Inr st1
        \<and> map_of (packages st) k = Some p0 \<longrightarrow>
        (\<exists>p1. map_of (packages st1) k = Some p1
           \<and> display_fields p1 = display_fields p0
           \<and> (resources p1 = resources p0 \<or> auto_wire ev k (resources p0) = Inr (resources p1))))"
proof (intro conjI impI)
  assume a: "merge_asset lib ev source owner_repo tag name data manifest mf st = Inr st'
      \<and> package_id manifest source = Inr k \<and> map_of (packages st) k = None"
  then have m: "merge_asset lib ev source owner_repo tag name data manifest mf st = Inr st'"
    by simp
  from m obtain k' pkg res v where
    "package_id manifest source = Inr k'"
    "pkg = setdefault (packages st) k' (new_package k' manifest)"
    "auto_wire ev k' (resources pkg) = Inr res"
    "(v \<in> version ` set (versions pkg)
        \<and> packages st' = dict_set (packages st) k' (pkg \<lparr> resources := res \<rparr>)
        \<and> logged st' = logged st @ [LogDuplicate v])
     \<or> (v \<notin> version ` set (versions pkg)
        \<and> (\<exists>url. asset_download_url owner_repo tag name = Inr url
             \<and> packages st' = dict_set (packages st) k'
                  (pkg \<lparr> resources := res,
                         versions := versions pkg @ [new_version_entry lib v url data manifest] \<rparr>)
             \<and> logged st' = logged st @ [LogOk mf v]))"
    by (rule merge_asset_cases)
  with a show "\<exists>p. map_of (packages st') k = Some p
         \<and> display_fields p = display_fields (new_package k manifest)
         \<and> auto_wire ev k (get_default manifest ''resources'' (JObj [])) = Inr (resources p)"
    by (auto simp: setdefault_def map_of_dict_set display_fields_def new_package_def)
next
  assume a: "scan_releases lib ev source owner_repo rx rels st = Inr st1
        \<and> map_of (packages st) k = Some p0"
  then have "kept ev k p0 (packages st)" by (simp add: kept_def)
  with merge_asset_kept have "kept ev k p0 (packages st1)"
    using a [THEN conjunct1] by (rule scan_releases_packages)
  then show "\<exists>p1. map_of (packages st1) k = Some p1
           \<and> display_fields p1 = display_fields p0
           \<and> (resources p1 = resources p0 \<or> auto_wire ev k (resources p0) = Inr (resources p1))"
    by (simp add: kept_def)
qed

text \<open>
  The first manifest names the package \<open>First\<close>, a later one \<open>Second\<close>: the later asset adds
  its version, and the name stays \<open>First\<close>.
\<close>

theorem first_manifest_wins_witness:
  "merge_asset (demo_two_lib ''2.0.0'') demo_two_env demo_src ''me/board'' (Some ''v1'')
        ''a.zip'' ''m1'' (demo_fields ''First'' ''1.0.0'') ''manifest.json'' demo_state
       = Inr (demo_first_state \<lparr> logged := [LogOk ''manifest.json'' ''1.0.0''] \<rparr>)
   \<and> pkg_name demo_first_pkg = JStr ''First''
   \<and> map_sum id (\<lambda>st. map (\<lambda>kv. (pkg_name (snd kv), map version (versions (snd kv)))) (packages st))
        (scan_releases (demo_two_lib ''2.0.0'') demo_two_env demo_src ''me/board'' demo_rx
           [demo_release ''v1'' [demo_asset ''b.zip'' ''u2'']] demo_first_state)
       = Inr [(JStr ''First'', [''1.0.0'', ''2.0.0''])]"
proof -
  define st1 where "st1 = projr (scan_releases (demo_two_lib ''2.0.0'') demo_two_env demo_src
      ''me/board'' demo_rx [demo_release ''v1'' [demo_asset ''b.zip'' ''u2'']] demo_first_state)"
  have create: "merge_asset (demo_two_lib ''2.0.0'') demo_two_env demo_src ''me/board'' (Some ''v1'')
        ''a.zip'' ''m1'' (demo_fields ''First'' ''1.0.0'') ''manifest.json'' demo_state
       = Inr (demo_first_state \<lparr> logged := [LogOk ''manifest.json'' ''1.0.0''] \<rparr>)"
    by code_simp
  have id: "package_id (demo_fields ''First'' ''1.0.0'') demo_src = Inr ''com.example.foo''"
    by code_simp
  have absent: "map_of (packages demo_state) ''com.example.foo'' = None"
    by (simp add: demo_state_def)
  have later: "scan_releases (demo_two_lib ''2.0.0'') demo_two_env demo_src ''me/board'' demo_rx
      [demo_release ''v1'' [demo_asset ''b.zip'' ''u2'']] demo_first_state = Inr st1"
    unfolding st1_def by code_simp
  have stored: "map_of (packages demo_first_state) ''com.example.foo'' = Some demo_first_pkg"
    by (simp add: demo_first_state_def)
  have shown: "map (\<lambda>kv. (pkg_name (snd kv), map version (versions (snd kv)))) (packages st1)
      = [(JStr ''First'', [''1.0.0'', ''2.0.0''])]"
    unfolding st1_def by code_simp
  from first_manifest_wins [of "demo_two_lib ''2.0.0''" demo_two_env demo_src "''me/board''"
      "Some ''v1''" "''a.zip''" "''m1''" "demo_fields ''First'' ''1.0.0''" "''manifest.json''"
      demo_state "demo_first_state \<lparr> logged := [LogOk ''manifest.json'' ''1.0.0''] \<rparr>"
      "''com.example.foo''" demo_rx "[demo_release ''v1'' [demo_asset ''b.zip'' ''u2'']]" st1
      demo_first_pkg]
    create id absent later stored shown
  show ?thesis by (simp add: demo_first_pkg_def)
qed

section \<open>Versions are stored in descending string order\<close>

lemma sorted_sort_reverse: "sorted_wrt (\<lambda>a b. k b \<le> k a) (sort_reverse k xs)"
proof -
  have "sorted (map k (sort_key k (rev xs)))" by (rule sorted_sort_key)
  then have "sorted_wrt (\<lambda>a b. k a \<le> k b) (sort_key k (rev xs))"
    by (simp add: sorted_map)
  then show ?thesis by (simp add: sort_reverse_def sorted_wrt_rev)
qed

text \<open>
  Claim C4. In every package a release scan returns, the versions are in descending order
  of their version strings under the lexicographic order on strings, which compares
  character by character and knows nothing of version numbers.
\<close>

theorem versions_sorted_descending:
  assumes "build_from_release_scan lib ev source token = Inr (pkgs, lg)" and "p \<in> set pkgs"
  shows "sorted_wrt (\<lambda>a b. version b \<le> version a) (versions p)"
proof -
  from assms(1) obtain owner_repo glob_pat rx listed where
    "scan_listed lib ev source owner_repo glob_pat rx listed = Inr (pkgs, lg)"
    by (rule build_result)
  then obtain st0 st where "packages st0 = []"
    and "scan_releases lib ev source owner_repo rx (sort_reverse created_at listed) st0 = Inr st"
    and "pkgs = map (\<lambda>kv. sort_package_versions (snd kv)) (packages st)"
    and "lg = logged st"
    by (rule scan_listed_result)
  with assms(2) obtain q where "p = sort_package_versions q" by auto
  then show ?thesis by (simp add: sort_package_versions_def sorted_sort_reverse)
qed

text \<open>
  The versions \<open>1.2.0\<close>, \<open>1.9.0\<close> and \<open>1.10.0\<close>, found in this order, are stored as
  \<open>1.9.0\<close>, \<open>1.2.0\<close>, \<open>1.10.0\<close>.
\<close>

theorem versions_sorted_descending_witness:
  "map_sum id (\<lambda>r. map (\<lambda>p. map version (versions p)) (fst r))
       (build_from_release_scan demo_sort_lib demo_sort_env demo_src None)
     = Inr [[''1.9.0'', ''1.2.0'', ''1.10.0'']]
   \<and> sorted_wrt (\<lambda>a b. b \<le> a) [''1.9.0'', ''1.2.0'', ''1.10.0'' :: string]"
proof -
  define r where "r = projr (build_from_release_scan demo_sort_lib demo_sort_env demo_src None)"
  have run: "build_from_release_scan demo_sort_lib demo_sort_env demo_src None
               = Inr (fst r, snd r)"
    unfolding r_def by code_simp
  have mem: "hd (fst r) \<in> set (fst r)"
    unfolding r_def by code_simp
  have vs: "map version (versions (hd (fst r))) = [''1.9.0'', ''1.2.0'', ''1.10.0'']"
    unfolding r_def by code_simp
  have all: "map (\<lambda>p. map version (versions p)) (fst r) = [[''1.9.0'', ''1.2.0'', ''1.10.0'']]"
    unfolding r_def by code_simp
  from versions_sorted_descending [OF run mem]
  have "sorted_wrt (\<lambda>a b. b \<le> a) (map version (versions (hd (fst r))))"
    by (simp add: sorted_wrt_map)
  with vs all run show ?thesis by simp
qed

section \<open>The version string of an asset\<close>

lemma strip_default_version: "py_strip ''0.0.0'' = ''0.0.0''"
  by (simp add: py_strip_def py_isspace_def)

lemma version_str_cases:
  assumes "version_str manifest tag = Inr v"
  shows "(\<forall>s. map_of manifest ''version'' = Some (JStr s) \<and> s \<noteq> [] \<longrightarrow> v = py_strip s)
     \<and> ((\<forall>x. map_of manifest ''version'' = Some x \<longrightarrow> \<not> py_truthy x) \<longrightarrow>
          (\<forall>t. tag = Some t \<and> t \<noteq> [] \<longrightarrow> v = py_strip (lstrip_v t))
          \<and> (tag = None \<or> tag = Some [] \<longrightarrow> v = ''0.0.0''))"
  using assms
  by (auto simp: version_str_def get_truthy_def strip_default_version
      split: option.splits json.splits if_splits)



text \<open>
  Claim C6, as amended. When an asset is merged, its version string is in the versions of
  its package, as the last entry if the string was not there before. The string is the
  manifest's version with surrounding whitespace stripped, when that is a non-empty
  string; when the manifest has no version or a falsy one, it is the release tag without
  its leading \<open>v\<close> characters and without surrounding whitespace if the tag is non-empty,
  and \<open>0.0.0\<close> if there is no tag or an empty one.
\<close>

theorem recorded_version:
  assumes "merge_asset lib ev source owner_repo tag name data manifest mf st = Inr st'"
    and "package_id manifest source = Inr k"
  shows "\<exists>p v. map_of (packages st') k = Some p \<and> version_str manifest tag = Inr v
     \<and> v \<in> version ` set (versions p)
     \<and> ((\<forall>p0. map_of (packages st) k = Some p0 \<longrightarrow> v \<notin> version ` set (versions p0)) \<longrightarrow>
          versions p \<noteq> [] \<and> version (last (versions p)) = v)
     \<and> (\<forall>s. map_of manifest ''version'' = Some (JStr s) \<and> s \<noteq> [] \<longrightarrow> v = py_strip s)
     \<and> ((\<forall>x. map_of manifest ''version'' = Some x \<longrightarrow> \<not> py_truthy x) \<longrightarrow>
          (\<forall>t. tag = Some t \<and> t \<noteq> [] \<longrightarrow> v = py_strip (lstrip_v t))
          \<and> (tag = None \<or> tag = Some [] \<longrightarrow> v = ''0.0.0''))"
proof -
  from assms(1) obtain k' pkg res v where
    k': "package_id manifest source = Inr k'"
    and pkg: "pkg = setdefault (packages st) k' (new_package k' manifest)"
    and v: "version_str manifest tag = Inr v"
    and out: "(v \<in> version ` set (versions pkg)
        \<and> packages st' = dict_set (packages st) k' (pkg \<lparr> resources := res \<rparr>)
        \<and> logged st' = logged st @ [LogDuplicate v])
     \<or> (v \<notin> version ` set (versions pkg)
        \<and> (\<exists>url. asset_download_url owner_repo tag name = Inr url
             \<and> packages st' = dict_set (packages st) k'
                  (pkg \<lparr> resources := res,
                         versions := versions pkg @ [new_version_entry lib v url data manifest] \<rparr>)
             \<and> logged st' = logged st @ [LogOk mf v]))"
    by (rule merge_asset_cases)
  from k' assms(2) have kk: "k' = k" by simp
  have new: "version (new_version_entry lib v url data manifest) = v" for url
    by (simp add: new_version_entry_def base_version_entry_def)
  have old: "versions pkg = (case map_of (packages st) k of Some p0 \<Rightarrow> versions p0 | None \<Rightarrow> [])"
    by (simp add: pkg kk setdefault_def new_package_def split: option.splits)
  have present: "v \<in> version ` set (versions pkg) \<Longrightarrow>
      \<not> (\<forall>p0. map_of (packages st) k = Some p0 \<longrightarrow> v \<notin> version ` set (versions p0))"
    by (cases "map_of (packages st) k") (simp_all add: old)
  have "\<exists>p. map_of (packages st') k = Some p \<and> v \<in> version ` set (versions p)
     \<and> ((\<forall>p0. map_of (packages st) k = Some p0 \<longrightarrow> v \<notin> version ` set (versions p0)) \<longrightarrow>
          versions p \<noteq> [] \<and> version (last (versions p)) = v)"
    using out
  proof
    assume dup: "v \<in> version ` set (versions pkg)
        \<and> packages st' = dict_set (packages st) k' (pkg \<lparr> resources := res \<rparr>)
        \<and> logged st' = logged st @ [LogDuplicate v]"
    then have "map_of (packages st') k = Some (pkg \<lparr> resources := res \<rparr>)"
      by (simp add: kk map_of_dict_set)
    moreover have "v \<in> version ` set (versions (pkg \<lparr> resources := res \<rparr>))"
      using dup by simp
    ultimately show ?thesis using present dup by blast
  next
    assume "v \<notin> version ` set (versions pkg)
        \<and> (\<exists>url. asset_download_url owner_repo tag name = Inr url
             \<and> packages st' = dict_set (packages st) k'
                  (pkg \<lparr> resources := res,
                         versions := versions pkg @ [new_version_entry lib v url data manifest] \<rparr>)
             \<and> logged st' = logged st @ [LogOk mf v])"
    then obtain url where st': "packages st' = dict_set (packages st) k
                  (pkg \<lparr> resources := res,
                         versions := versions pkg @ [new_version_entry lib v url data manifest] \<rparr>)"
      using kk by auto
    let ?p = "pkg \<lparr> resources := res,
                   versions := versions pkg @ [new_version_entry lib v url data manifest] \<rparr>"
    have "map_of (packages st') k = Some ?p" by (simp add: st' map_of_dict_set)
    moreover have "v \<in> version ` set (versions ?p)" by (simp add: new)
    moreover have "versions ?p \<noteq> [] \<and> version (last (versions ?p)) = v" by (simp add: new)
    ultimately show ?thesis by blast
  qed
  then obtain p where "map_of (packages st') k = Some p" "v \<in> version ` set (versions p)"
    "(\<forall>p0. map_of (packages st) k = Some p0 \<longrightarrow> v \<notin> version ` set (versions p0)) \<longrightarrow>
          versions p \<noteq> [] \<and> version (last (versions p)) = v"
    by blast
  with v version_str_cases [OF v] show ?thesis
    by (intro exI [of _ p] exI [of _ v]) simp
qed

theorem recorded_version_witness:
  "package_id [(''version'', JStr '' 1.0 '')] demo_src = Inr ''board''
   \<and> version_str [(''version'', JStr '' 1.0 '')] (Some ''v2'') = Inr ''1.0''
   \<and> map_sum id (\<lambda>st. map (\<lambda>kv. (fst kv, map version (versions (snd kv)))) (packages st))
        (merge_asset (demo_lib []) (demo_env [] []) demo_src ''me/board'' (Some ''v2'')
           ''a.zip'' ''body'' [(''version'', JStr '' 1.0 '')] ''manifest.json'' demo_state)
       = Inr [(''board'', [''1.0''])]
   \<and> py_strip '' 1.0 '' = ''1.0''"
proof -
  define st' where "st' = projr (merge_asset (demo_lib []) (demo_env [] []) demo_src ''me/board''
      (Some ''v2'') ''a.zip'' ''body'' [(''version'', JStr '' 1.0 '')] ''manifest.json'' demo_state)"
  have merged: "merge_asset (demo_lib []) (demo_env [] []) demo_src ''me/board''
      (Some ''v2'') ''a.zip'' ''body'' [(''version'', JStr '' 1.0 '')] ''manifest.json'' demo_state
      = Inr st'"
    unfolding st'_def by code_simp
  have id: "package_id [(''version'', JStr '' 1.0 '')] demo_src = Inr ''board''"
    by code_simp
  have ver: "version_str [(''version'', JStr '' 1.0 '')] (Some ''v2'') = Inr ''1.0''"
    by code_simp
  have shown: "map (\<lambda>kv. (fst kv, map version (versions (snd kv)))) (packages st')
      = [(''board'', [''1.0''])]"
    unfolding st'_def by code_simp
  have strip: "py_strip '' 1.0 '' = ''1.0''" by code_simp
  from recorded_version [OF merged id] merged id ver shown strip
  show ?thesis by simp
qed

text \<open>
  Claim C6 as stated fails on a declared version with whitespace around it: the manifest
  declares \<open>1.0\<close> with a blank before it, and the version recorded is \<open>1.0\<close> without the
  blank. And \<open>lstrip\<close> takes all leading \<open>v\<close> characters of the tag, not one.
\<close>

theorem recorded_version_counterexample:
  "map_of [(''version'', JStr '' 1.0'')] ''version'' = Some (JStr '' 1.0'')
   \<and> map_sum id (\<lambda>st. map (\<lambda>kv. map version (versions (snd kv))) (packages st))
        (merge_asset (demo_lib []) (demo_env [] []) demo_src ''me/board'' (Some ''v2'')
           ''a.zip'' ''body'' [(''version'', JStr '' 1.0'')] ''manifest.json'' demo_state)
       = Inr [[''1.0'']]
   \<and> ''1.0'' \<noteq> '' 1.0''
   \<and> version_str [] (Some ''vv2'') = Inr ''2''"
  by code_simp

section \<open>The install size of a version\<close>

text \<open>
  Claim C7, as amended. When an asset with a new version string is merged, one entry is
  appended to the versions of its package. Apart from \<open>install_size\<close> it is the entry
  built from the download and the manifest. If the manifest's \<open>install_size\<close> is truthy,
  the entry's \<open>install_size\<close> is what \<open>int\<close> makes of it, and it is absent when \<open>int\<close>
  raises; if the manifest has no \<open>install_size\<close> or a falsy one, it is absent.
\<close>

theorem install_size_recorded:
  assumes "merge_asset lib ev source owner_repo tag name data manifest mf st = Inr st'"
    and "package_id manifest source = Inr k"
    and "version_str manifest tag = Inr v"
    and "\<forall>p0. map_of (packages st) k = Some p0 \<longrightarrow> v \<notin> version ` set (versions p0)"
  shows "\<exists>p url e. map_of (packages st') k = Some p
     \<and> asset_download_url owner_repo tag name = Inr url
     \<and> versions p = (case map_of (packages st) k of Some p0 \<Rightarrow> versions p0 | None \<Rightarrow> []) @ [e]
     \<and> e \<lparr> install_size := None \<rparr> = base_version_entry lib v url data manifest
     \<and> (\<forall>x. map_of manifest ''install_size'' = Some x \<and> py_truthy x \<longrightarrow>
          install_size e = py_int lib x)
     \<and> ((\<forall>x. map_of manifest ''install_size'' = Some x \<longrightarrow> \<not> py_truthy x) \<longrightarrow>
          install_size e = None)"
proof -
  from assms(1) obtain k' pkg res v' where
    k': "package_id manifest source = Inr k'"
    and pkg: "pkg = setdefault (packages st) k' (new_package k' manifest)"
    and v': "version_str manifest tag = Inr v'"
    and out: "(v' \<in> version ` set (versions pkg)
        \<and> packages st' = dict_set (packages st) k' (pkg \<lparr> resources := res \<rparr>)
        \<and> logged st' = logged st @ [LogDuplicate v'])
     \<or> (v' \<notin> version ` set (versions pkg)
        \<and> (\<exists>url. asset_download_url owner_repo tag name = Inr url
             \<and> packages st' = dict_set (packages st) k'
                  (pkg \<lparr> resources := res,
                         versions := versions pkg @ [new_version_entry lib v' url data manifest] \<rparr>)
             \<and> logged st' = logged st @ [LogOk mf v']))"
    by (rule merge_asset_cases)
  from k' assms(2) v' assms(3) have kk: "k' = k" "v' = v" by simp_all
  have old: "versions pkg = (case map_of (packages st) k of Some p0 \<Rightarrow> versions p0 | None \<Rightarrow> [])"
    by (simp add: pkg kk setdefault_def new_package_def split: option.splits)
  have "v \<notin> version ` set (versions pkg)"
  proof (cases "map_of (packages st) k")
    case None
    then show ?thesis by (simp add: old)
  next
    case (Some p0)
    with assms(4) have "v \<notin> version ` set (versions p0)" by simp
    with Some show ?thesis by (simp add: old)
  qed
  with out kk obtain url where url: "asset_download_url owner_repo tag name = Inr url"
    and st': "packages st' = dict_set (packages st) k
                  (pkg \<lparr> resources := res,
                         versions := versions pkg @ [new_version_entry lib v url data manifest] \<rparr>)"
    by auto
  let ?e = "new_version_entry lib v url data manifest"
  have "map_of (packages st') k
      = Some (pkg \<lparr> resources := res, versions := versions pkg @ [?e] \<rparr>)"
    by (simp add: st' map_of_dict_set)
  moreover have "?e \<lparr> install_size := None \<rparr> = base_version_entry lib v url data manifest"
    by (simp add: new_version_entry_def base_version_entry_def)
  moreover have "\<forall>x. map_of manifest ''install_size'' = Some x \<and> py_truthy x \<longrightarrow>
          install_size ?e = py_int lib x"
    by (simp add: new_version_entry_def install_size_of_def get_truthy_def)
  moreover have "(\<forall>x. map_of manifest ''install_size'' = Some x \<longrightarrow> \<not> py_truthy x) \<longrightarrow>
          install_size ?e = None"
    by (auto simp: new_version_entry_def install_size_of_def get_truthy_def split: option.splits)
  ultimately show ?thesis
    using url old
    by (intro exI [of _ "pkg \<lparr> resources := res, versions := versions pkg @ [?e] \<rparr>"]
          exI [of _ url] exI [of _ ?e]) simp
qed

theorem install_size_recorded_witness:
  "map_sum id (\<lambda>st. map (\<lambda>kv. map install_size (versions (snd kv))) (packages st))
        (merge_asset (demo_lib []) (demo_env [] []) demo_src ''me/board'' (Some ''v2'')
           ''a.zip'' ''body'' (demo_sized (JInt 2048)) ''manifest.json'' demo_state)
       = Inr [[Some 2048]]
   \<and> map_sum id (\<lambda>st. map (\<lambda>kv. map install_size (versions (snd kv))) (packages st))
        (merge_asset (demo_lib []) (demo_env [] []) demo_src ''me/board'' (Some ''v2'')
           ''a.zip'' ''body'' (demo_sized (JStr ''big'')) ''manifest.json'' demo_state)
       = Inr [[None]]"
proof -
  define st1 where "st1 = projr (merge_asset (demo_lib []) (demo_env [] []) demo_src ''me/board''
      (Some ''v2'') ''a.zip'' ''body'' (demo_sized (JInt 2048)) ''manifest.json'' demo_state)"
  define st2 where "st2 = projr (merge_asset (demo_lib []) (demo_env [] []) demo_src ''me/board''
      (Some ''v2'') ''a.zip'' ''body'' (demo_sized (JStr ''big'')) ''manifest.json'' demo_state)"
  have ok1: "merge_asset (demo_lib []) (demo_env [] []) demo_src ''me/board''
      (Some ''v2'') ''a.zip'' ''body'' (demo_sized (JInt 2048)) ''manifest.json'' demo_state
      = Inr st1"
    unfolding st1_def by code_simp
  have ok2: "merge_asset (demo_lib []) (demo_env [] []) demo_src ''me/board''
      (Some ''v2'') ''a.zip'' ''body'' (demo_sized (JStr ''big'')) ''manifest.json'' demo_state
      = Inr st2"
    unfolding st2_def by code_simp
  have id: "package_id (demo_sized n) demo_src = Inr ''board''" for n
    by (simp add: package_id_def demo_sized_def get_truthy_def demo_src_def)
  have ver: "version_str (demo_sized n) (Some ''v2'') = Inr ''1.0''" for n
    by (simp add: version_str_def demo_sized_def get_truthy_def py_strip_def py_isspace_def)
  have fresh: "\<forall>p0. map_of (packages demo_state) ''board'' = Some p0
      \<longrightarrow> ''1.0'' \<notin> version ` set (versions p0)"
    by (simp add: demo_state_def)
  have shown1: "map (\<lambda>kv. map install_size (versions (snd kv))) (packages st1) = [[Some 2048]]"
    unfolding st1_def by code_simp
  have shown2: "map (\<lambda>kv. map install_size (versions (snd kv))) (packages st2) = [[None]]"
    unfolding st2_def by code_simp
  from install_size_recorded [OF ok1 id ver fresh] install_size_recorded [OF ok2 id ver fresh]
    shown1 shown2
  show ?thesis by (simp add: ok1 ok2)
qed

text \<open>
  Claim C7 as stated fails on an \<open>install_size\<close> of 0: it is supplied and \<open>int\<close> accepts it,
  but it is falsy, so the entry has no \<open>install_size\<close>.
\<close>

theorem install_size_zero_counterexample:
  "py_truthy (JInt 0) = False
   \<and> py_int (demo_lib []) (JInt 0) = Some 0
   \<and> map_sum id (\<lambda>st. map (\<lambda>kv. map install_size (versions (snd kv))) (packages st))
        (merge_asset (demo_lib []) (demo_env [] []) demo_src ''me/board'' (Some ''v2'')
           ''a.zip'' ''body'' (demo_sized (JInt 0)) ''manifest.json'' demo_state)
       = Inr [[None]]"
  by code_simp

section \<open>The tolerant loader and a URL in the manifest\<close>

text \<open>
  Claim C5 at a manifest with a comment line, a trailing comma and a URL. The comment
  pattern also matches the \<open>//\<close> inside the string, so the text that is parsed again has
  lost the rest of that line, the closing quote with it: if strict parsing rejects the
  manifest, the loader returns what strict parsing makes of a text with an unterminated
  string, not the value of the manifest with the comment and the comma removed.
\<close>

theorem tolerant_loader_retry_text:
  "strip_trailing_commas (strip_comments demo_doc) = demo_doc_cut
   \<and> (json_loads lib demo_doc = None \<longrightarrow>
        json_loads_tolerant lib demo_doc = json_loads lib demo_doc_cut)"
proof -
  have "strip_trailing_commas (strip_comments demo_doc) = demo_doc_cut" by code_simp
  then show ?thesis by (simp add: json_loads_tolerant_def)
qed

theorem tolerant_loader_retry_text_witness:
  "json_loads demo_doc_lib demo_doc = None
   \<and> json_loads_tolerant demo_doc_lib demo_doc = None
   \<and> json_loads demo_doc_lib demo_doc_clean
       = Some (JObj [(''homepage'', JStr ''https://example.com/foo'')])"
proof -
  have a: "json_loads demo_doc_lib demo_doc = None" by code_simp
  have b: "json_loads demo_doc_lib demo_doc_cut = None" by code_simp
  have c: "json_loads demo_doc_lib demo_doc_clean
       = Some (JObj [(''homepage'', JStr ''https://example.com/foo'')])" by code_simp
  from tolerant_loader_retry_text [of demo_doc_lib] a b c show ?thesis by simp
qed

end
